theory Spec2Isabelle
  imports Main
begin

section \<open>Exceptions\<close>

text \<open>
  The custom exception classes of \<^verbatim>\<open>railway_reservation.cpp\<close> (lines 14-50), one
  constructor each, carrying the constructor arguments of the C++ class. A function that
  can throw returns \<open>exn + 'a\<close>, with \<open>Inl\<close> for the exception in flight.
\<close>

datatype exn =
    TrainNotFoundException int
  | SeatNotFoundException int int
  | NoSeatsAvailableException int
  | TicketNotFoundException string
  | FileIOException string string
  | InvalidInputException string

section \<open>Train\<close>

text \<open>
  \<^verbatim>\<open>class Train\<close> (lines 52-120). \<open>seatAvailability\<close> is the \<^verbatim>\<open>std::vector<bool>\<close>;
  \<open>True\<close> means the seat is available; index \<open>i\<close> holds seat number \<open>i + 1\<close>.
  The C++ \<^verbatim>\<open>int\<close> fields are kept as \<open>int\<close>; indices into the vector are \<open>nat (i)\<close>.
\<close>

record Train =
  trainId :: int
  trainName :: string
  totalSeats :: int
  seatAvailability :: "bool list"

text \<open>
  The constructor (lines 60-68): three validations in order, then
  \<^verbatim>\<open>resize(totalSeats, true)\<close>. Running out of memory in \<^verbatim>\<open>resize\<close> is not
  modelled.
\<close>

definition Train_new :: "int \<Rightarrow> string \<Rightarrow> int \<Rightarrow> exn + Train" where
  "Train_new tid name seats =
     (if tid \<le> 0 then Inl (InvalidInputException ''Train ID must be positive'')
      else if name = [] then Inl (InvalidInputException ''Train name cannot be empty'')
      else if seats \<le> 0 then Inl (InvalidInputException ''Number of seats must be positive'')
      else Inr \<lparr>trainId = tid, trainName = name, totalSeats = seats,
                seatAvailability = replicate (nat seats) True\<rparr>)"

definition isSeatAvailable :: "Train \<Rightarrow> int \<Rightarrow> exn + bool" where
  "isSeatAvailable t seatNumber =
     (if seatNumber < 1 \<or> seatNumber > totalSeats t
      then Inl (SeatNotFoundException (trainId t) seatNumber)
      else Inr (seatAvailability t ! nat (seatNumber - 1)))"

definition getAvailableSeatsCount :: "Train \<Rightarrow> int" where
  "getAvailableSeatsCount t = int (count_list (seatAvailability t) True)"

text \<open>
  \<^verbatim>\<open>bookNextAvailableSeat\<close> (lines 85-93): the \<^verbatim>\<open>for\<close> loop over \<open>i\<close> from 0 while
  \<open>i < totalSeats\<close>. A mutating member function returns its result (or the exception)
  together with the object after the call.
\<close>

function bookNext_loop :: "Train \<Rightarrow> int \<Rightarrow> (exn + int) \<times> Train" where
  "bookNext_loop t i =
     (if i < totalSeats t then
        (if seatAvailability t ! nat i
         then (Inr (i + 1), t\<lparr>seatAvailability := (seatAvailability t)[nat i := False]\<rparr>)
         else bookNext_loop t (i + 1))
      else (Inl (NoSeatsAvailableException (trainId t)), t))"
  by pat_completeness auto
termination
  by (relation "measure (\<lambda>(t, i). nat (totalSeats t - i))") auto

declare bookNext_loop.simps [simp del]

definition bookNextAvailableSeat :: "Train \<Rightarrow> (exn + int) \<times> Train" where
  "bookNextAvailableSeat t = bookNext_loop t 0"

definition bookSpecificSeat :: "Train \<Rightarrow> int \<Rightarrow> (exn + bool) \<times> Train" where
  "bookSpecificSeat t seatNumber =
     (if seatNumber < 1 \<or> seatNumber > totalSeats t
      then (Inl (SeatNotFoundException (trainId t) seatNumber), t)
      else if seatAvailability t ! nat (seatNumber - 1)
      then (Inr True, t\<lparr>seatAvailability := (seatAvailability t)[nat (seatNumber - 1) := False]\<rparr>)
      else (Inr False, t))"

definition cancelSeat :: "Train \<Rightarrow> int \<Rightarrow> (exn + bool) \<times> Train" where
  "cancelSeat t seatNumber =
     (if seatNumber < 1 \<or> seatNumber > totalSeats t
      then (Inl (SeatNotFoundException (trainId t) seatNumber), t)
      else if \<not> seatAvailability t ! nat (seatNumber - 1)
      then (Inr True, t\<lparr>seatAvailability := (seatAvailability t)[nat (seatNumber - 1) := True]\<rparr>)
      else (Inr False, t))"

text \<open>
  The class invariant: the fields are private and the constructor sizes the vector to
  \<open>totalSeats\<close>, which no member function changes. Every \<^verbatim>\<open>Train\<close> object of the
  program satisfies it.
\<close>

definition wf_train :: "Train \<Rightarrow> bool" where
  "wf_train t = (length (seatAvailability t) = nat (totalSeats t))"

section \<open>Ticket\<close>

text \<open>
  \<^verbatim>\<open>class Ticket\<close> (lines 122-169). The constructor validates its four arguments in
  order and then stores the formatted local time (\<^verbatim>\<open>time(0)\<close> through
  \<^verbatim>\<open>localtime\<close>, lines 141-151) as \<open>bookingTime\<close>. The clock is the environment's:
  the formatted reading is the argument \<open>now\<close>. The field \<^verbatim>\<open>trainId\<close> of the ticket
  is \<open>ticketTrainId\<close> here, since \<open>trainId\<close> names the field of \<open>Train\<close>.
\<close>

record Ticket =
  bookingId :: string
  ticketTrainId :: int
  seatNumber :: int
  passengerName :: string
  bookingTime :: string

definition Ticket_new :: "string \<Rightarrow> int \<Rightarrow> int \<Rightarrow> string \<Rightarrow> string \<Rightarrow> exn + Ticket" where
  "Ticket_new bid train seat passenger now =
     (if bid = [] then Inl (InvalidInputException ''Booking ID cannot be empty'')
      else if train \<le> 0 then Inl (InvalidInputException ''Train ID must be positive'')
      else if seat \<le> 0 then Inl (InvalidInputException ''Seat number must be positive'')
      else if passenger = [] then Inl (InvalidInputException ''Passenger name cannot be empty'')
      else Inr \<lparr>bookingId = bid, ticketTrainId = train, seatNumber = seat,
                passengerName = passenger, bookingTime = now\<rparr>)"

section \<open>ReservationSystem\<close>

text \<open>
  \<^verbatim>\<open>class ReservationSystem\<close> (lines 171-586): the vector of trains, the
  \<^verbatim>\<open>unordered_map\<close> from booking id to ticket, and the random generator. The generator
  is modelled by what it will produce: \<open>gen\<close> is the list of the future results of
  \<^verbatim>\<open>dis(gen)\<close>, consumed from the front. Console output is left out of the booking
  and cancellation operations.
\<close>

record ReservationSystem =
  trains :: "Train list"
  bookings :: "string \<rightharpoonup> Ticket"
  gen :: "nat list"

definition chars :: string where
  "chars = ''ABCDEFGHIJKLMNOPQRSTUVWXYZ0123456789''"

text \<open>
  The id built from eight draws (lines 182-185). The distribution is over
  \<open>0 .. chars.size() - 1\<close>; a draw is reduced modulo 36 so that every list of naturals
  stands for a sequence of results of the distribution.
\<close>

definition candidateId :: "nat list \<Rightarrow> string" where
  "candidateId ds = ''BK'' @ map (\<lambda>d. chars ! (d mod 36)) ds"

text \<open>
  \<^verbatim>\<open>generateBookingId\<close> (lines 178-193) calls itself until the candidate is absent
  from the ledger, with no bound. Here it stops with \<open>None\<close> when fewer than eight
  draws are left: \<open>None\<close> is the call that has not returned within the given draws.
\<close>

function generateBookingId :: "(string \<rightharpoonup> Ticket) \<Rightarrow> nat list \<Rightarrow> (string \<times> nat list) option" where
  "generateBookingId bk ds =
     (if length ds < 8 then None
      else if bk (candidateId (take 8 ds)) \<noteq> None then generateBookingId bk (drop 8 ds)
      else Some (candidateId (take 8 ds), drop 8 ds))"
  by pat_completeness auto
termination
  by (relation "measure (\<lambda>(bk, ds). length ds)") auto

declare generateBookingId.simps [simp del]

text \<open>The candidates a list of draws holds, in the order the retries meet them.\<close>

function candidates :: "nat list \<Rightarrow> string list" where
  "candidates ds =
     (if length ds < 8 then [] else candidateId (take 8 ds) # candidates (drop 8 ds))"
  by pat_completeness auto
termination
  by (relation "measure length") auto

declare candidates.simps [simp del]

text \<open>
  \<^verbatim>\<open>findTrainRef\<close> (lines 569-576): the first train of the vector with the id. The
  reference it returns is the train's index; the caller's mutation through the reference
  is an update of the vector at that index. \<^verbatim>\<open>findTrain\<close> (lines 559-566) is the
  same scan on a const reference.
\<close>

fun findTrainRef :: "Train list \<Rightarrow> int \<Rightarrow> exn + nat" where
  "findTrainRef [] tid = Inl (TrainNotFoundException tid)"
| "findTrainRef (t # ts) tid =
     (if trainId t = tid then Inr 0 else map_sum id Suc (findTrainRef ts tid))"

definition findTicket :: "(string \<rightharpoonup> Ticket) \<Rightarrow> string \<Rightarrow> exn + Ticket" where
  "findTicket bk bid =
     (case bk bid of None \<Rightarrow> Inl (TicketNotFoundException bid) | Some t \<Rightarrow> Inr t)"

text \<open>
  \<^verbatim>\<open>unordered_map::emplace\<close>: inserts only when the key is absent and returns whether
  it inserted. Both call sites (lines 261 and 491) discard the returned flag.
\<close>

definition emplace :: "('k \<rightharpoonup> 'v) \<Rightarrow> 'k \<Rightarrow> 'v \<Rightarrow> ('k \<rightharpoonup> 'v) \<times> bool" where
  "emplace m k v = (if m k = None then (m(k \<mapsto> v), True) else (m, False))"

text \<open>
  \<^verbatim>\<open>bookTicket\<close> (lines 247-281). The result is \<open>None\<close> when the id generation has
  not returned; otherwise the returned string (\<open>Inr\<close>) or an exception leaving the
  function (\<open>Inl\<close>), and the system after the call. \<^verbatim>\<open>findTrainRef\<close> throws only
  TrainNotFound and \<^verbatim>\<open>bookNextAvailableSeat\<close> only NoSeatsAvailable, which the two
  outer handlers catch. The \<^verbatim>\<open>cancelSeat\<close> of the rollback runs inside the handler of
  InvalidInput: a SeatNotFound it threw would be caught by no handler of the function.
\<close>

definition bookTicket ::
  "int \<Rightarrow> string \<Rightarrow> string \<Rightarrow> ReservationSystem \<Rightarrow> ((exn + string) \<times> ReservationSystem) option" where
  "bookTicket tid pname now s =
     (if pname = [] then Some (Inr [], s)
      else case findTrainRef (trains s) tid of
        Inl e \<Rightarrow> Some (Inr [], s)
      | Inr k \<Rightarrow>
          (case bookNextAvailableSeat (trains s ! k) of
             (Inl e, t1) \<Rightarrow> Some (Inr [], s\<lparr>trains := (trains s)[k := t1]\<rparr>)
           | (Inr seat, t1) \<Rightarrow>
               (case generateBookingId (bookings s) (gen s) of
                  None \<Rightarrow> None
                | Some (bid, g) \<Rightarrow>
                    (case Ticket_new bid tid seat pname now of
                       Inr ticket \<Rightarrow>
                         Some (Inr bid,
                           \<lparr>trains = (trains s)[k := t1],
                            bookings = fst (emplace (bookings s) bid ticket),
                            gen = g\<rparr>)
                     | Inl e \<Rightarrow>
                         (case cancelSeat t1 seat of
                            (Inl e', t2) \<Rightarrow>
                              Some (Inl e',
                                \<lparr>trains = (trains s)[k := t2], bookings = bookings s, gen = g\<rparr>)
                          | (Inr b, t2) \<Rightarrow>
                              Some (Inr [],
                                \<lparr>trains = (trains s)[k := t2], bookings = bookings s, gen = g\<rparr>))))))"

text \<open>
  \<^verbatim>\<open>cancelTicket\<close> (lines 283-313): every exception is caught inside and turned into
  \<^verbatim>\<open>false\<close>.
\<close>

definition cancelTicket :: "string \<Rightarrow> ReservationSystem \<Rightarrow> bool \<times> ReservationSystem" where
  "cancelTicket bid s =
     (case findTicket (bookings s) bid of
        Inl e \<Rightarrow> (False, s)
      | Inr ticket \<Rightarrow>
          (case findTrainRef (trains s) (ticketTrainId ticket) of
             Inl e \<Rightarrow> (False, s)
           | Inr k \<Rightarrow>
               (case cancelSeat (trains s ! k) (seatNumber ticket) of
                  (Inr True, t1) \<Rightarrow>
                    (True, s\<lparr>trains := (trains s)[k := t1],
                             bookings := (bookings s)(bid := None)\<rparr>)
                | (Inr False, t1) \<Rightarrow> (False, s\<lparr>trains := (trains s)[k := t1]\<rparr>)
                | (Inl e, t1) \<Rightarrow> (False, s\<lparr>trains := (trains s)[k := t1]\<rparr>))))"

definition checkTicketStatus :: "string \<Rightarrow> ReservationSystem \<Rightarrow> bool" where
  "checkTicketStatus bid s =
     (case findTicket (bookings s) bid of Inl e \<Rightarrow> False | Inr ticket \<Rightarrow> True)"

text \<open>A seat of the registry is taken: the train is found and the seat is in range and not available.\<close>

definition seatTaken :: "Train list \<Rightarrow> int \<Rightarrow> int \<Rightarrow> bool" where
  "seatTaken ts tid n =
     (case findTrainRef ts tid of
        Inl e \<Rightarrow> False
      | Inr k \<Rightarrow> isSeatAvailable (ts ! k) n = Inr False)"

section \<open>CSV loading\<close>

text \<open>
  What the loaders write to \<^verbatim>\<open>std::cerr\<close>, one constructor for each message of
  \<^verbatim>\<open>loadTrainsFromCSV\<close> and \<^verbatim>\<open>loadTicketsFromCSV\<close> (a message and the
  \<^verbatim>\<open>Line content\<close> line after it are one value).
\<close>

datatype message =
    ErrorParsingLine exn string
  | WarnInconsistentSeatData int
  | ErrorFindingTrain exn string
  | ErrorBookingSeat exn string
  | WarnSeatAlreadyBooked int int string
  | ErrorCreatingTicket exn string

text \<open>
  \<^verbatim>\<open>std::getline(ss, token, ',')\<close> on the string stream of a line, given what is left
  of the stream: the extraction fails exactly when nothing is left; otherwise the token is
  the text before the first delimiter and the delimiter is consumed.
\<close>

definition getline_delim :: "string \<Rightarrow> char \<Rightarrow> (string \<times> string) option" where
  "getline_delim ss d =
     (if ss = [] then None
      else Some (takeWhile (\<lambda>c. c \<noteq> d) ss, drop 1 (dropWhile (\<lambda>c. c \<noteq> d) ss)))"

text \<open>
  \<^verbatim>\<open>std::stoi\<close>: leading white space is skipped, one sign is accepted, the longest
  run of decimal digits is converted and what follows is ignored. \<open>None\<close> is the
  exception (\<^verbatim>\<open>invalid_argument\<close> for no digit, \<^verbatim>\<open>out_of_range\<close> outside the
  32-bit \<^verbatim>\<open>int\<close>); the callers catch both as \<^verbatim>\<open>std::exception\<close>.
\<close>

definition isspace :: "char \<Rightarrow> bool" where
  "isspace c = (c \<in> {CHR '' '', CHR 0x09, CHR 0x0A, CHR 0x0B, CHR 0x0C, CHR 0x0D})"

definition isdigit :: "char \<Rightarrow> bool" where
  "isdigit c = (48 \<le> (of_char c :: nat) \<and> (of_char c :: nat) \<le> 57)"

definition digits_value :: "string \<Rightarrow> int" where
  "digits_value ds = foldl (\<lambda>acc c. acc * 10 + (int (of_char c) - 48)) 0 ds"

definition stoi :: "string \<Rightarrow> int option" where
  "stoi str =
     (let s1 = dropWhile isspace str;
          neg = (s1 \<noteq> [] \<and> hd s1 = CHR ''-'');
          s2 = (if s1 \<noteq> [] \<and> (hd s1 = CHR ''-'' \<or> hd s1 = CHR ''+'') then tl s1 else s1);
          ds = takeWhile isdigit s2
      in if ds = [] then None
         else let v = (if neg then - digits_value ds else digits_value ds)
              in if v < - 2147483648 \<or> 2147483647 < v then None else Some v)"

text \<open>
  \<^verbatim>\<open>int bookedSeats = totalSeats - availableSeats\<close> is a subtraction of 32-bit
  \<^verbatim>\<open>int\<close>s; where the difference leaves the range it is taken in two's complement.
\<close>

definition wrap32 :: "int \<Rightarrow> int" where
  "wrap32 x = (x + 2147483648) mod 4294967296 - 2147483648"

text \<open>
  The parsing part of the loop body of \<^verbatim>\<open>loadTrainsFromCSV\<close> (lines 350-376):
  the four fields in order, each failure the InvalidInput thrown there. The result is
  (trainId, trainName, totalSeats, availableSeats).
\<close>

definition parseTrainLine :: "string \<Rightarrow> exn + (int \<times> string \<times> int \<times> int)" where
  "parseTrainLine line =
     (case getline_delim line CHR '','' of
        None \<Rightarrow> Inl (InvalidInputException ''missing train ID'')
      | Some (tok1, r1) \<Rightarrow>
     (case stoi tok1 of
        None \<Rightarrow> Inl (InvalidInputException (''train ID is not a valid number: '' @ tok1))
      | Some tid \<Rightarrow>
     (case getline_delim r1 CHR '','' of
        None \<Rightarrow> Inl (InvalidInputException ''missing train name'')
      | Some (name, r2) \<Rightarrow>
     (case getline_delim r2 CHR '','' of
        None \<Rightarrow> Inl (InvalidInputException ''missing total seats'')
      | Some (tok3, r3) \<Rightarrow>
     (case stoi tok3 of
        None \<Rightarrow> Inl (InvalidInputException (''total seats is not a valid number: '' @ tok3))
      | Some nseats \<Rightarrow>
     (case getline_delim r3 CHR '','' of
        None \<Rightarrow> Inl (InvalidInputException ''missing available seats'')
      | Some (tok4, r4) \<Rightarrow>
     (case stoi tok4 of
        None \<Rightarrow> Inl (InvalidInputException (''available seats is not a valid number: '' @ tok4))
      | Some avail \<Rightarrow> Inr (tid, name, nseats, avail))))))))"

text \<open>
  The reconciliation loop (lines 383-390), with the local variables \<open>i\<close>,
  \<open>bookedSeats\<close> and \<^verbatim>\<open>totalSeats\<close> (here \<open>nseats\<close>, the parsed number, since
  \<open>totalSeats\<close> names the field of the train): it returns the train and what was written
  to \<^verbatim>\<open>std::cerr\<close>. The handler of NoSeatsAvailable writes the warning and leaves
  the loop.
\<close>

function reconcile_loop :: "Train \<Rightarrow> int \<Rightarrow> int \<Rightarrow> int \<Rightarrow> Train \<times> message list" where
  "reconcile_loop train i bookedSeats nseats =
     (if i < bookedSeats \<and> i < nseats then
        (case bookNextAvailableSeat train of
           (Inr n, train') \<Rightarrow> reconcile_loop train' (i + 1) bookedSeats nseats
         | (Inl e, train') \<Rightarrow> (train', [WarnInconsistentSeatData (trainId train)]))
      else (train, []))"
  by pat_completeness auto
termination
  by (relation "measure (\<lambda>(train, i, bookedSeats, nseats). nat (nseats - i))") auto

declare reconcile_loop.simps [simp del]

text \<open>
  One pass of the \<^verbatim>\<open>while\<close> loop of \<^verbatim>\<open>loadTrainsFromCSV\<close> (lines 340-399): the
  train to push (if any) and the output. The handler of InvalidInput (line 394) catches
  the parse failures and the failure of the \<^verbatim>\<open>Train\<close> constructor alike.
\<close>

definition loadTrainLine :: "string \<Rightarrow> Train option \<times> message list" where
  "loadTrainLine line =
     (case parseTrainLine line of
        Inl e \<Rightarrow> (None, [ErrorParsingLine e line])
      | Inr (tid, name, nseats, avail) \<Rightarrow>
          (case Train_new tid name nseats of
             Inl e \<Rightarrow> (None, [ErrorParsingLine e line])
           | Inr train \<Rightarrow>
               (case reconcile_loop train 0 (wrap32 (nseats - avail)) nseats of
                  (train', out) \<Rightarrow> (Some train', out))))"

fun loadTrainLines :: "string list \<Rightarrow> Train list \<Rightarrow> message list \<Rightarrow> Train list \<times> message list" where
  "loadTrainLines [] ts out = (ts, out)"
| "loadTrainLines (l # ls) ts out =
     (case loadTrainLine l of
        (None, out') \<Rightarrow> loadTrainLines ls ts (out @ out')
      | (Some t, out') \<Rightarrow> loadTrainLines ls (ts @ [t]) (out @ out'))"

text \<open>
  \<^verbatim>\<open>loadTrainsFromCSV\<close> (lines 327-402). The file is \<open>None\<close> when it cannot be
  opened and the list of its lines otherwise; the first line is the header.
\<close>

definition loadTrainsFromCSV ::
  "string \<Rightarrow> string list option \<Rightarrow> ReservationSystem \<Rightarrow> (exn + message list) \<times> ReservationSystem" where
  "loadTrainsFromCSV filename file s =
     (case file of
        None \<Rightarrow> (Inl (FileIOException filename ''open''), s)
      | Some lines \<Rightarrow>
          (case loadTrainLines (drop 1 lines) [] [] of
             (ts, out) \<Rightarrow> (Inr out, s\<lparr>trains := ts\<rparr>)))"

text \<open>
  The parsing part of the loop body of \<^verbatim>\<open>loadTicketsFromCSV\<close> (lines 455-480);
  \<open>bookingTime\<close> is the rest of the line.
\<close>

definition parseTicketLine :: "string \<Rightarrow> exn + (string \<times> int \<times> int \<times> string \<times> string)" where
  "parseTicketLine line =
     (case getline_delim line CHR '','' of
        None \<Rightarrow> Inl (InvalidInputException ''missing booking ID'')
      | Some (bid, r1) \<Rightarrow>
     (case getline_delim r1 CHR '','' of
        None \<Rightarrow> Inl (InvalidInputException ''missing train ID'')
      | Some (tok2, r2) \<Rightarrow>
     (case stoi tok2 of
        None \<Rightarrow> Inl (InvalidInputException (''train ID is not a valid number: '' @ tok2))
      | Some tid \<Rightarrow>
     (case getline_delim r2 CHR '','' of
        None \<Rightarrow> Inl (InvalidInputException ''missing seat number'')
      | Some (tok3, r3) \<Rightarrow>
     (case stoi tok3 of
        None \<Rightarrow> Inl (InvalidInputException (''seat number is not a valid number: '' @ tok3))
      | Some seat \<Rightarrow>
     (case getline_delim r3 CHR '','' of
        None \<Rightarrow> Inl (InvalidInputException ''missing passenger name'')
      | Some (pname, r4) \<Rightarrow> Inr (bid, tid, seat, pname, r4)))))))"

text \<open>
  One pass of the \<^verbatim>\<open>while\<close> loop of \<^verbatim>\<open>loadTicketsFromCSV\<close> (lines 444-522) on the
  system and the two counters \<open>loadedTickets\<close> and \<open>errorCount\<close>; \<open>now\<close> is the
  clock read by the \<^verbatim>\<open>Ticket\<close> constructor. The parsed \<open>bookingTime\<close> is not used
  after line 480. A SeatNotFound thrown by the \<^verbatim>\<open>cancelSeat\<close> of line 497 skips
  line 498 and is caught by the handler of line 505.
\<close>

definition loadTicketLine ::
  "string \<Rightarrow> string \<Rightarrow> ReservationSystem \<times> int \<times> int
     \<Rightarrow> (ReservationSystem \<times> int \<times> int) \<times> message list" where
  "loadTicketLine line now st =
     (case st of (s, loadedTickets, errorCount) \<Rightarrow>
     (case parseTicketLine line of
        Inl e \<Rightarrow> ((s, loadedTickets, errorCount + 1), [ErrorParsingLine e line])
      | Inr (bid, tid, seat, pname, btime) \<Rightarrow>
     (case findTrainRef (trains s) tid of
        Inl e \<Rightarrow> ((s, loadedTickets, errorCount + 1), [ErrorFindingTrain e line])
      | Inr k \<Rightarrow>
     (case bookSpecificSeat (trains s ! k) seat of
        (Inl e, t1) \<Rightarrow>
          ((s\<lparr>trains := (trains s)[k := t1]\<rparr>, loadedTickets, errorCount + 1),
           [ErrorBookingSeat e line])
      | (Inr False, t1) \<Rightarrow>
          ((s\<lparr>trains := (trains s)[k := t1]\<rparr>, loadedTickets, errorCount + 1),
           [WarnSeatAlreadyBooked seat tid bid])
      | (Inr True, t1) \<Rightarrow>
     (case Ticket_new bid tid seat pname now of
        Inr ticket \<Rightarrow>
          ((s\<lparr>trains := (trains s)[k := t1],
              bookings := fst (emplace (bookings s) bid ticket)\<rparr>,
            loadedTickets + 1, errorCount), [])
      | Inl e \<Rightarrow>
     (case cancelSeat t1 seat of
        (Inr b, t2) \<Rightarrow>
          ((s\<lparr>trains := (trains s)[k := t2]\<rparr>, loadedTickets, errorCount + 1),
           [ErrorCreatingTicket e line])
      | (Inl e', t2) \<Rightarrow>
          ((s\<lparr>trains := (trains s)[k := t2]\<rparr>, loadedTickets, errorCount + 1),
           [ErrorCreatingTicket e line, ErrorBookingSeat e' line])))))))"

text \<open>The loop over the lines; \<open>clock i\<close> is the clock while line \<open>i\<close> is processed.\<close>

fun loadTicketLines ::
  "string list \<Rightarrow> (nat \<Rightarrow> string) \<Rightarrow> nat \<Rightarrow> ReservationSystem \<times> int \<times> int \<Rightarrow> message list
     \<Rightarrow> (ReservationSystem \<times> int \<times> int) \<times> message list" where
  "loadTicketLines [] clock i st out = (st, out)"
| "loadTicketLines (l # ls) clock i st out =
     (case loadTicketLine l (clock i) st of
        (st', out') \<Rightarrow> loadTicketLines ls clock (Suc i) st' (out @ out'))"

text \<open>
  \<^verbatim>\<open>loadTicketsFromCSV\<close> (lines 428-528): on success the result holds
  \<open>loadedTickets\<close>, \<open>errorCount\<close> and the output.
\<close>

definition loadTicketsFromCSV ::
  "string \<Rightarrow> string list option \<Rightarrow> (nat \<Rightarrow> string) \<Rightarrow> ReservationSystem
     \<Rightarrow> (exn + (int \<times> int \<times> message list)) \<times> ReservationSystem" where
  "loadTicketsFromCSV filename file clock s =
     (case file of
        None \<Rightarrow> (Inl (FileIOException filename ''open''), s)
      | Some lines \<Rightarrow>
          (case loadTicketLines (drop 1 lines) clock 0 (s\<lparr>bookings := Map.empty\<rparr>, 0, 0) [] of
             ((s', loadedTickets, errorCount), out) \<Rightarrow>
               (Inr (loadedTickets, errorCount, out), s')))"

section \<open>Construction and start of the program\<close>

text \<open>
  The constructor of \<^verbatim>\<open>ReservationSystem\<close> (lines 196-207): the four trains are pushed
  in order inside one \<^verbatim>\<open>try\<close>; an InvalidInput of a \<^verbatim>\<open>Train\<close> constructor ends
  the block and keeps the trains pushed so far.
\<close>

fun push_trains :: "(int \<times> string \<times> int) list \<Rightarrow> Train list \<Rightarrow> Train list" where
  "push_trains [] ts = ts"
| "push_trains ((tid, name, seats) # rest) ts =
     (case Train_new tid name seats of
        Inl e \<Rightarrow> ts
      | Inr t \<Rightarrow> push_trains rest (ts @ [t]))"

definition ReservationSystem_init :: "nat list \<Rightarrow> ReservationSystem" where
  "ReservationSystem_init g =
     \<lparr>trains = push_trains
        [(1001, ''Express Delhi'', 100), (1002, ''Mumbai Local'', 100),
         (1003, ''Chennai Mail'', 100), (1004, ''Kolkata Express'', 100)] [],
      bookings = Map.empty,
      gen = g\<rparr>"

text \<open>
  The start of \<^verbatim>\<open>main\<close> (lines 643-660): construction, then the two loads, each in its
  own \<^verbatim>\<open>try\<close> whose handler catches the FileIO exception and goes on.
\<close>

definition main_loadTrains :: "string list option \<Rightarrow> ReservationSystem \<Rightarrow> ReservationSystem" where
  "main_loadTrains trainsFile s = snd (loadTrainsFromCSV ''trains.csv'' trainsFile s)"

definition main_loadTickets ::
  "string list option \<Rightarrow> (nat \<Rightarrow> string) \<Rightarrow> ReservationSystem \<Rightarrow> ReservationSystem" where
  "main_loadTickets ticketsFile clock s =
     snd (loadTicketsFromCSV ''tickets.csv'' ticketsFile clock s)"

definition main_startup ::
  "string list option \<Rightarrow> string list option \<Rightarrow> (nat \<Rightarrow> string) \<Rightarrow> nat list \<Rightarrow> ReservationSystem" where
  "main_startup trainsFile ticketsFile clock g =
     main_loadTickets ticketsFile clock (main_loadTrains trainsFile (ReservationSystem_init g))"

text \<open>
  The states of the running program: the state after the start, and every state a call of
  \<^verbatim>\<open>bookTicket\<close> or \<^verbatim>\<open>cancelTicket\<close> leaves behind, with any arguments.
\<close>

inductive reachable :: "ReservationSystem \<Rightarrow> bool" where
  reachable_start: "reachable (main_startup trainsFile ticketsFile clock g)"
| reachable_book:
    "reachable s \<Longrightarrow> bookTicket tid pname now s = Some (r, s') \<Longrightarrow> reachable s'"
| reachable_cancel:
    "reachable s \<Longrightarrow> cancelTicket bid s = (b, s') \<Longrightarrow> reachable s'"

text \<open>
  The invariant carried through every operation: the trains keep their class invariant,
  every ticket of the ledger has its seat taken, and no two tickets hold the same seat.
\<close>

definition ledger_consistent :: "ReservationSystem \<Rightarrow> bool" where
  "ledger_consistent s =
     ((\<forall>t \<in> set (trains s). wf_train t)
      \<and> (\<forall>bid tk. bookings s bid = Some tk
            \<longrightarrow> seatTaken (trains s) (ticketTrainId tk) (seatNumber tk))
      \<and> (\<forall>b1 b2 t1 t2. bookings s b1 = Some t1 \<and> bookings s b2 = Some t2
            \<and> ticketTrainId t1 = ticketTrainId t2 \<and> seatNumber t1 = seatNumber t2
            \<longrightarrow> b1 = b2))"

section \<open>Facts about Train\<close>

lemma Train_new_wf: "Train_new tid name seats = Inr t \<Longrightarrow> wf_train t"
  by (auto simp: Train_new_def wf_train_def split: if_splits)

lemma bookNext_loop_spec:
  assumes "0 \<le> i" and "\<forall>j. 0 \<le> j \<and> j < i \<longrightarrow> \<not> seatAvailability t ! nat j"
  shows "(case bookNext_loop t i of
            (Inr n, t') \<Rightarrow> 1 \<le> n \<and> n \<le> totalSeats t \<and> seatAvailability t ! nat (n - 1)
                \<and> (\<forall>j. 0 \<le> j \<and> j < n - 1 \<longrightarrow> \<not> seatAvailability t ! nat j)
                \<and> t' = t\<lparr>seatAvailability := (seatAvailability t)[nat (n - 1) := False]\<rparr>
          | (Inl e, t') \<Rightarrow> e = NoSeatsAvailableException (trainId t) \<and> t' = t
                \<and> (\<forall>j. 0 \<le> j \<and> j < totalSeats t \<longrightarrow> \<not> seatAvailability t ! nat j))"
  using assms
proof (induction t i rule: bookNext_loop.induct)
  case (1 t i)
  show ?case
  proof (cases "i < totalSeats t")
    case False
    with "1.prems" show ?thesis
      by (subst bookNext_loop.simps) auto
  next
    case inb: True
    show ?thesis
    proof (cases "seatAvailability t ! nat i")
      case True
      with inb "1.prems" show ?thesis
        by (subst bookNext_loop.simps) auto
    next
      case False
      have step: "\<forall>j. 0 \<le> j \<and> j < i + 1 \<longrightarrow> \<not> seatAvailability t ! nat j"
      proof (intro allI impI)
        fix j assume "0 \<le> j \<and> j < i + 1"
        then have "j < i \<or> j = i" by arith
        with \<open>0 \<le> j \<and> j < i + 1\<close> "1.prems" False show "\<not> seatAvailability t ! nat j"
          by auto
      qed
      have "0 \<le> i + 1" using "1.prems" by simp
      from "1.IH" [OF inb False this step] inb False show ?thesis
        by (subst bookNext_loop.simps) simp
    qed
  qed
qed

lemma bookNextAvailableSeat_spec:
  "(case bookNextAvailableSeat t of
      (Inr n, t') \<Rightarrow> 1 \<le> n \<and> n \<le> totalSeats t \<and> seatAvailability t ! nat (n - 1)
          \<and> (\<forall>j. 0 \<le> j \<and> j < n - 1 \<longrightarrow> \<not> seatAvailability t ! nat j)
          \<and> t' = t\<lparr>seatAvailability := (seatAvailability t)[nat (n - 1) := False]\<rparr>
    | (Inl e, t') \<Rightarrow> e = NoSeatsAvailableException (trainId t) \<and> t' = t
          \<and> (\<forall>j. 0 \<le> j \<and> j < totalSeats t \<longrightarrow> \<not> seatAvailability t ! nat j))"
  unfolding bookNextAvailableSeat_def by (rule bookNext_loop_spec) auto

lemma bookNext_Inr:
  assumes "bookNextAvailableSeat t = (Inr n, t')"
  shows "1 \<le> n" and "n \<le> totalSeats t" and "seatAvailability t ! nat (n - 1)"
    and "\<forall>j. 0 \<le> j \<and> j < n - 1 \<longrightarrow> \<not> seatAvailability t ! nat j"
    and "t' = t\<lparr>seatAvailability := (seatAvailability t)[nat (n - 1) := False]\<rparr>"
  using bookNextAvailableSeat_spec [of t] assms by simp_all

lemma bookNext_Inl:
  assumes "bookNextAvailableSeat t = (Inl e, t')"
  shows "e = NoSeatsAvailableException (trainId t)" and "t' = t"
    and "\<forall>j. 0 \<le> j \<and> j < totalSeats t \<longrightarrow> \<not> seatAvailability t ! nat j"
  using bookNextAvailableSeat_spec [of t] assms by simp_all

lemma bookNext_wf: "wf_train t \<Longrightarrow> wf_train (snd (bookNextAvailableSeat t))"
  using bookNextAvailableSeat_spec [of t]
  by (cases "bookNextAvailableSeat t") (auto simp: wf_train_def split: sum.splits)

lemma no_seat_available_iff:
  assumes "wf_train t"
  shows "getAvailableSeatsCount t = 0
     \<longleftrightarrow> (\<forall>j. 0 \<le> j \<and> j < totalSeats t \<longrightarrow> \<not> seatAvailability t ! nat j)"
proof -
  have "getAvailableSeatsCount t = 0 \<longleftrightarrow> True \<notin> set (seatAvailability t)"
    by (simp add: getAvailableSeatsCount_def count_list_0_iff)
  also have "\<dots> \<longleftrightarrow> (\<forall>k < length (seatAvailability t). \<not> seatAvailability t ! k)"
    by (auto simp: in_set_conv_nth)
  also have "\<dots> \<longleftrightarrow> (\<forall>j. 0 \<le> j \<and> j < totalSeats t \<longrightarrow> \<not> seatAvailability t ! nat j)"
  proof
    assume h: "\<forall>k < length (seatAvailability t). \<not> seatAvailability t ! k"
    show "\<forall>j. 0 \<le> j \<and> j < totalSeats t \<longrightarrow> \<not> seatAvailability t ! nat j"
    proof (intro allI impI)
      fix j assume "0 \<le> j \<and> j < totalSeats t"
      then have "nat j < length (seatAvailability t)"
        using assms by (simp add: wf_train_def)
      with h show "\<not> seatAvailability t ! nat j" by blast
    qed
  next
    assume h: "\<forall>j. 0 \<le> j \<and> j < totalSeats t \<longrightarrow> \<not> seatAvailability t ! nat j"
    show "\<forall>k < length (seatAvailability t). \<not> seatAvailability t ! k"
    proof (intro allI impI)
      fix k assume "k < length (seatAvailability t)"
      then have "0 \<le> int k \<and> int k < totalSeats t"
        using assms by (simp add: wf_train_def)
      with h have "\<not> seatAvailability t ! nat (int k)" by blast
      then show "\<not> seatAvailability t ! k" by simp
    qed
  qed
  finally show ?thesis .
qed

section \<open>Facts about the registry and the id generation\<close>

lemma findTrainRef_Inr:
  "findTrainRef ts tid = Inr k \<Longrightarrow> k < length ts \<and> trainId (ts ! k) = tid"
proof (induction ts arbitrary: k)
  case Nil then show ?case by simp
next
  case (Cons t ts)
  show ?case
  proof (cases "trainId t = tid")
    case True with Cons.prems show ?thesis by auto
  next
    case False
    with Cons.prems obtain k' where "findTrainRef ts tid = Inr k'" "k = Suc k'"
      by (cases "findTrainRef ts tid") auto
    with Cons.IH [of k'] show ?thesis by simp
  qed
qed

lemma findTrainRef_cong:
  "map trainId ts = map trainId ts' \<Longrightarrow> findTrainRef ts tid = findTrainRef ts' tid"
proof (induction ts arbitrary: ts')
  case Nil then show ?case by simp
next
  case (Cons t ts)
  then obtain u us where "ts' = u # us" by (cases ts') auto
  with Cons show ?case by auto
qed

lemma findTrainRef_update:
  assumes "k < length ts" and "trainId t' = trainId (ts ! k)"
  shows "findTrainRef (ts[k := t']) tid = findTrainRef ts tid"
proof (rule findTrainRef_cong)
  show "map trainId (ts[k := t']) = map trainId ts"
    using assms by (simp add: map_update list_update_same_conv)
qed

lemma findTrainRef_Inl_iff:
  "(\<exists>e. findTrainRef ts tid = Inl e) \<longleftrightarrow> tid \<notin> trainId ` set ts"
  by (induction ts) (auto simp: map_sum_def split: sum.splits)

lemma generateBookingId_Some:
  "generateBookingId bk ds = Some (bid, g) \<Longrightarrow> bk bid = None \<and> bid \<noteq> [] \<and> bid \<in> set (candidates ds)"
proof (induction bk ds rule: generateBookingId.induct)
  case (1 bk ds)
  show ?case
  proof (cases "length ds < 8")
    case True
    with "1.prems" show ?thesis by (simp add: generateBookingId.simps)
  next
    case long: False
    show ?thesis
    proof (cases "bk (candidateId (take 8 ds)) \<noteq> None")
      case True
      with long "1.prems" have "generateBookingId bk (drop 8 ds) = Some (bid, g)"
        by (subst (asm) generateBookingId.simps) simp
      from "1.IH" [OF long True this] long show ?thesis
        by (subst candidates.simps) simp
    next
      case False
      with long "1.prems" have "bid = candidateId (take 8 ds)"
        by (subst (asm) generateBookingId.simps) simp
      with False long show ?thesis
        by (subst candidates.simps) (simp add: candidateId_def)
    qed
  qed
qed

lemma generateBookingId_returns:
  "\<exists>c\<in>set (candidates ds). bk c = None \<Longrightarrow> \<exists>bid g. generateBookingId bk ds = Some (bid, g)"
proof (induction ds rule: candidates.induct)
  case (1 ds)
  show ?case
  proof (cases "length ds < 8")
    case True
    with "1.prems" show ?thesis by (simp add: candidates.simps)
  next
    case long: False
    show ?thesis
    proof (cases "bk (candidateId (take 8 ds)) \<noteq> None")
      case False
      with long show ?thesis by (subst generateBookingId.simps) simp
    next
      case True
      with long "1.prems" have "\<exists>c\<in>set (candidates (drop 8 ds)). bk c = None"
        by (subst (asm) candidates.simps) auto
      from "1.IH" [OF long this] long True show ?thesis
        by (subst generateBookingId.simps) simp
    qed
  qed
qed


lemma cancelSeat_undoes_bookNext:
  assumes "wf_train t" and "bookNextAvailableSeat t = (Inr n, t1)"
  shows "cancelSeat t1 n = (Inr True, t)"
proof -
  note f = bookNext_Inr [OF assms(2)]
  have len: "nat (n - 1) < length (seatAvailability t)"
    using f(1,2) assms(1) by (simp add: wf_train_def)
  have "(seatAvailability t)[nat (n - 1) := True] = seatAvailability t"
    using f(3) len by (simp add: list_update_same_conv)
  then show ?thesis
    using f(1,2) len by (simp add: cancelSeat_def f(5))
qed

lemma cancelSeat_after_bookNext_no_throw:
  assumes "bookNextAvailableSeat t = (Inr n, t1)"
  shows "\<exists>b t2. cancelSeat t1 n = (Inr b, t2)"
  using bookNext_Inr(1,2,5) [OF assms] by (auto simp: cancelSeat_def)

lemma bookNext_Inr_count:
  assumes "wf_train t" and "bookNextAvailableSeat t = (Inr n, t1)"
  shows "getAvailableSeatsCount t \<noteq> 0"
proof -
  note f = bookNext_Inr [OF assms(2)]
  have "0 \<le> n - 1 \<and> n - 1 < totalSeats t" using f(1,2) by simp
  with f(3) have "\<not> (\<forall>j. 0 \<le> j \<and> j < totalSeats t \<longrightarrow> \<not> seatAvailability t ! nat j)"
    by blast
  then show ?thesis using no_seat_available_iff [OF assms(1)] by simp
qed

lemma bookNext_Inl_count:
  assumes "wf_train t" and "bookNextAvailableSeat t = (Inl e, t1)"
  shows "getAvailableSeatsCount t = 0"
  using bookNext_Inl(3) [OF assms(2)] no_seat_available_iff [OF assms(1)] by simp

lemma bookTicket_cases:
  assumes wf: "\<forall>t\<in>set (trains s). wf_train t"
    and bt: "bookTicket tid p now s = Some (r, s')"
  shows "(r = Inr [] \<and> trains s' = trains s \<and> bookings s' = bookings s)
       \<or> (\<exists>bid k n t1. r = Inr bid \<and> bid \<noteq> [] \<and> p \<noteq> [] \<and> 0 < tid
             \<and> findTrainRef (trains s) tid = Inr k
             \<and> bookNextAvailableSeat (trains s ! k) = (Inr n, t1)
             \<and> bookings s bid = None
             \<and> trains s' = (trains s)[k := t1]
             \<and> bookings s' = (bookings s)(bid \<mapsto>
                  \<lparr>bookingId = bid, ticketTrainId = tid, seatNumber = n,
                   passengerName = p, bookingTime = now\<rparr>))"
proof (cases "p = []")
  case True
  with bt show ?thesis by (simp add: bookTicket_def)
next
  case pne: False
  show ?thesis
  proof (cases "findTrainRef (trains s) tid")
    case (Inl e)
    with pne bt show ?thesis by (simp add: bookTicket_def)
  next
    case found: (Inr k)
    from findTrainRef_Inr [OF found] have k: "k < length (trains s)" by simp
    let ?t = "trains s ! k"
    from k wf have wft: "wf_train ?t" by simp
    have same: "(trains s)[k := ?t] = trains s" by simp
    show ?thesis
    proof (cases "bookNextAvailableSeat ?t")
      case (Pair res t1)
      show ?thesis
      proof (cases res)
        case (Inl e)
        with Pair have eq: "bookNextAvailableSeat ?t = (Inl e, t1)" by simp
        from bookNext_Inl(2) [OF eq] have "t1 = ?t" .
        with pne found eq bt show ?thesis by (auto simp: bookTicket_def)
      next
        case (Inr n)
        with Pair have eq: "bookNextAvailableSeat ?t = (Inr n, t1)" by simp
        note f = bookNext_Inr [OF eq]
        from bt pne found eq obtain bid g
          where gb: "generateBookingId (bookings s) (gen s) = Some (bid, g)"
          by (cases "generateBookingId (bookings s) (gen s)") (auto simp: bookTicket_def)
        from generateBookingId_Some [OF gb] have fresh: "bookings s bid = None"
          and bne: "bid \<noteq> []" by simp_all
        show ?thesis
        proof (cases "tid \<le> 0")
          case True
          then obtain e where tn: "Ticket_new bid tid n p now = Inl e"
            using bne by (simp add: Ticket_new_def)
          have "bookTicket tid p now s
              = Some (Inr [], \<lparr>trains = trains s, bookings = bookings s, gen = g\<rparr>)"
            using pne found eq gb tn cancelSeat_undoes_bookNext [OF wft eq] same
            by (simp add: bookTicket_def)
          with bt show ?thesis by auto
        next
          case False
          then have tn: "Ticket_new bid tid n p now
              = Inr \<lparr>bookingId = bid, ticketTrainId = tid, seatNumber = n,
                     passengerName = p, bookingTime = now\<rparr>"
            using bne pne f(1) by (simp add: Ticket_new_def)
          have "bookTicket tid p now s
              = Some (Inr bid, \<lparr>trains = (trains s)[k := t1],
                   bookings = (bookings s)(bid \<mapsto> \<lparr>bookingId = bid, ticketTrainId = tid,
                     seatNumber = n, passengerName = p, bookingTime = now\<rparr>),
                   gen = g\<rparr>)"
            using pne found eq gb tn fresh by (simp add: bookTicket_def emplace_def)
          with bt have "r = Inr bid" and "trains s' = (trains s)[k := t1]"
            and "bookings s' = (bookings s)(bid \<mapsto> \<lparr>bookingId = bid, ticketTrainId = tid,
                     seatNumber = n, passengerName = p, bookingTime = now\<rparr>)"
            by auto
          with bne pne False found eq fresh show ?thesis by auto
        qed
      qed
    qed
  qed
qed

lemma count_list_take_seat:
  "i < length xs \<Longrightarrow> xs ! i \<Longrightarrow> count_list xs True = Suc (count_list (xs[i := False]) True)"
proof (induction xs arbitrary: i)
  case Nil
  then show ?case by simp
next
  case (Cons x xs)
  show ?case
  proof (cases i)
    case 0
    with Cons.prems show ?thesis by simp
  next
    case (Suc j)
    with Cons.prems Cons.IH [of j] show ?thesis by simp
  qed
qed

section \<open>Taken seats under updates of the registry\<close>

lemma seatTaken_D:
  assumes "seatTaken ts a b"
  obtains k where "findTrainRef ts a = Inr k" and "k < length ts" and "trainId (ts ! k) = a"
    and "1 \<le> b" and "b \<le> totalSeats (ts ! k)" and "\<not> seatAvailability (ts ! k) ! nat (b - 1)"
proof -
  from assms obtain k where f: "findTrainRef ts a = Inr k"
    and av: "isSeatAvailable (ts ! k) b = Inr False"
    by (cases "findTrainRef ts a") (auto simp: seatTaken_def)
  from av have "1 \<le> b" "b \<le> totalSeats (ts ! k)" "\<not> seatAvailability (ts ! k) ! nat (b - 1)"
    by (auto simp: isSeatAvailable_def split: if_splits)
  with f findTrainRef_Inr [OF f] that show ?thesis by blast
qed

lemma seatTaken_I:
  assumes "findTrainRef ts a = Inr k" and "1 \<le> b" and "b \<le> totalSeats (ts ! k)"
    and "\<not> seatAvailability (ts ! k) ! nat (b - 1)"
  shows "seatTaken ts a b"
  using assms by (simp add: seatTaken_def isSeatAvailable_def)

lemma seatTaken_mark:
  assumes k: "k < length ts" and tk: "seatTaken ts a b"
  shows "seatTaken (ts[k := (ts ! k)\<lparr>seatAvailability := (seatAvailability (ts ! k))[i := False]\<rparr>]) a b"
proof -
  let ?t' = "(ts ! k)\<lparr>seatAvailability := (seatAvailability (ts ! k))[i := False]\<rparr>"
  from tk obtain k' where f: "findTrainRef ts a = Inr k'" and k': "k' < length ts"
    and r: "1 \<le> b" "b \<le> totalSeats (ts ! k')" and nv: "\<not> seatAvailability (ts ! k') ! nat (b - 1)"
    by (rule seatTaken_D)
  have f': "findTrainRef (ts[k := ?t']) a = Inr k'"
    using findTrainRef_update [OF k, of ?t' a] f by simp
  show ?thesis
  proof (cases "k' = k")
    case False
    with k' have "ts[k := ?t'] ! k' = ts ! k'" by simp
    with f' r nv show ?thesis by (intro seatTaken_I [where k = k']) simp_all
  next
    case True
    have "\<not> (seatAvailability (ts ! k))[i := False] ! nat (b - 1)"
    proof (cases "i < length (seatAvailability (ts ! k))")
      case True
      with nv \<open>k' = k\<close> show ?thesis by (simp add: nth_list_update)
    next
      case False
      then have "(seatAvailability (ts ! k))[i := False] = seatAvailability (ts ! k)"
        by (simp add: list_update_beyond)
      with nv \<open>k' = k\<close> show ?thesis by simp
    qed
    with True k f' r show ?thesis by (intro seatTaken_I [where k = k']) simp_all
  qed
qed

lemma seatTaken_marked:
  assumes f: "findTrainRef ts tid = Inr k" and r: "1 \<le> n" "n \<le> totalSeats (ts ! k)"
    and wf: "wf_train (ts ! k)"
  shows "seatTaken (ts[k := (ts ! k)\<lparr>seatAvailability := (seatAvailability (ts ! k))[nat (n - 1) := False]\<rparr>]) tid n"
proof -
  let ?t' = "(ts ! k)\<lparr>seatAvailability := (seatAvailability (ts ! k))[nat (n - 1) := False]\<rparr>"
  from findTrainRef_Inr [OF f] have k: "k < length ts" by simp
  have f': "findTrainRef (ts[k := ?t']) tid = Inr k"
    using findTrainRef_update [OF k, of ?t' tid] f by simp
  have "nat (n - 1) < length (seatAvailability (ts ! k))"
    using r wf by (simp add: wf_train_def)
  with f' k r show ?thesis by (intro seatTaken_I [where k = k]) simp_all
qed

lemma seatTaken_release_other:
  assumes f: "findTrainRef ts tid = Inr k" and n: "1 \<le> n"
    and tk: "seatTaken ts a b" and ne: "\<not> (a = tid \<and> b = n)"
  shows "seatTaken (ts[k := (ts ! k)\<lparr>seatAvailability := (seatAvailability (ts ! k))[nat (n - 1) := True]\<rparr>]) a b"
proof -
  let ?t' = "(ts ! k)\<lparr>seatAvailability := (seatAvailability (ts ! k))[nat (n - 1) := True]\<rparr>"
  from findTrainRef_Inr [OF f] have k: "k < length ts" and idk: "trainId (ts ! k) = tid" by simp_all
  from tk obtain k' where fa: "findTrainRef ts a = Inr k'" and k': "k' < length ts"
    and ida: "trainId (ts ! k') = a"
    and r: "1 \<le> b" "b \<le> totalSeats (ts ! k')" and nv: "\<not> seatAvailability (ts ! k') ! nat (b - 1)"
    by (rule seatTaken_D)
  have f': "findTrainRef (ts[k := ?t']) a = Inr k'"
    using findTrainRef_update [OF k, of ?t' a] fa by simp
  show ?thesis
  proof (cases "k' = k")
    case False
    with k' have "ts[k := ?t'] ! k' = ts ! k'" by simp
    with f' r nv show ?thesis by (intro seatTaken_I [where k = k']) simp_all
  next
    case True
    with ida idk ne have "b \<noteq> n" by simp
    with r n have "nat (n - 1) \<noteq> nat (b - 1)" by arith
    with nv True have "\<not> (seatAvailability (ts ! k))[nat (n - 1) := True] ! nat (b - 1)"
      by simp
    with True k f' r show ?thesis by (intro seatTaken_I [where k = k']) simp_all
  qed
qed

lemma available_not_taken:
  assumes "findTrainRef ts tid = Inr k" and "seatAvailability (ts ! k) ! nat (n - 1)"
  shows "\<not> seatTaken ts tid n"
  using assms by (auto simp: seatTaken_def isSeatAvailable_def)

lemma wf_trains_update:
  assumes "\<forall>t\<in>set ts. wf_train t" and "wf_train t'"
  shows "\<forall>t\<in>set (ts[k := t']). wf_train t"
  using assms set_update_subset_insert [of ts k t'] by auto

lemma wf_train_seat_update:
  "wf_train t \<Longrightarrow> wf_train (t\<lparr>seatAvailability := (seatAvailability t)[i := v]\<rparr>)"
  by (simp add: wf_train_def)

section \<open>Preservation of the ledger invariant\<close>

lemma consistent_same:
  assumes "ledger_consistent s" and "trains s' = trains s" and "bookings s' = bookings s"
  shows "ledger_consistent s'"
  using assms by (simp add: ledger_consistent_def)

lemma consistent_take:
  assumes inv: "ledger_consistent s" and k: "k < length (trains s)"
    and tr: "trains s' = (trains s)[k := (trains s ! k)
               \<lparr>seatAvailability := (seatAvailability (trains s ! k))[i := False]\<rparr>]"
    and bk: "bookings s' = bookings s"
  shows "ledger_consistent s'"
proof -
  from inv have wf: "\<forall>t\<in>set (trains s). wf_train t"
    and taken: "\<And>bid tk. bookings s bid = Some tk
        \<Longrightarrow> seatTaken (trains s) (ticketTrainId tk) (seatNumber tk)"
    and inj: "\<And>b1 b2 t1 t2. bookings s b1 = Some t1 \<Longrightarrow> bookings s b2 = Some t2
        \<Longrightarrow> ticketTrainId t1 = ticketTrainId t2 \<Longrightarrow> seatNumber t1 = seatNumber t2 \<Longrightarrow> b1 = b2"
    unfolding ledger_consistent_def by blast+
  from wf k have "wf_train (trains s ! k)" by simp
  then have wf': "\<forall>t\<in>set (trains s'). wf_train t"
    unfolding tr by (intro wf_trains_update [OF wf] wf_train_seat_update)
  have taken': "\<forall>bid tk. bookings s' bid = Some tk
      \<longrightarrow> seatTaken (trains s') (ticketTrainId tk) (seatNumber tk)"
    unfolding tr bk using taken seatTaken_mark [OF k] by blast
  show ?thesis
    unfolding ledger_consistent_def using wf' taken' inj bk by auto
qed

lemma consistent_insert:
  assumes inv: "ledger_consistent s" and f: "findTrainRef (trains s) tid = Inr k"
    and r: "1 \<le> n" "n \<le> totalSeats (trains s ! k)"
    and av: "seatAvailability (trains s ! k) ! nat (n - 1)"
    and fresh: "bookings s bid = None"
    and tr: "trains s' = (trains s)[k := (trains s ! k)
               \<lparr>seatAvailability := (seatAvailability (trains s ! k))[nat (n - 1) := False]\<rparr>]"
    and bk: "bookings s' = (bookings s)(bid \<mapsto> tk)"
    and tkf: "ticketTrainId tk = tid" "seatNumber tk = n"
  shows "ledger_consistent s'"
proof -
  from inv have wf: "\<forall>t\<in>set (trains s). wf_train t"
    and taken: "\<And>bid tk. bookings s bid = Some tk
        \<Longrightarrow> seatTaken (trains s) (ticketTrainId tk) (seatNumber tk)"
    and inj: "\<And>b1 b2 t1 t2. bookings s b1 = Some t1 \<Longrightarrow> bookings s b2 = Some t2
        \<Longrightarrow> ticketTrainId t1 = ticketTrainId t2 \<Longrightarrow> seatNumber t1 = seatNumber t2 \<Longrightarrow> b1 = b2"
    unfolding ledger_consistent_def by blast+
  from findTrainRef_Inr [OF f] have k: "k < length (trains s)" by simp
  from wf k have wfk: "wf_train (trains s ! k)" by simp
  then have wf': "\<forall>t\<in>set (trains s'). wf_train t"
    unfolding tr by (intro wf_trains_update [OF wf] wf_train_seat_update)
  have new: "seatTaken (trains s') tid n"
    unfolding tr by (rule seatTaken_marked [OF f r wfk])
  have old: "\<And>b t. bookings s b = Some t \<Longrightarrow> seatTaken (trains s') (ticketTrainId t) (seatNumber t)"
    unfolding tr using taken seatTaken_mark [OF k] by blast
  have free: "\<not> seatTaken (trains s) tid n" by (rule available_not_taken [OF f av])
  have nobody: "\<And>b t. bookings s b = Some t \<Longrightarrow> \<not> (ticketTrainId t = tid \<and> seatNumber t = n)"
    using taken free by metis
  have taken': "\<forall>b t. bookings s' b = Some t
      \<longrightarrow> seatTaken (trains s') (ticketTrainId t) (seatNumber t)"
    unfolding bk using new old tkf by auto
  have inj': "\<forall>b1 b2 t1 t2. bookings s' b1 = Some t1 \<and> bookings s' b2 = Some t2
      \<and> ticketTrainId t1 = ticketTrainId t2 \<and> seatNumber t1 = seatNumber t2 \<longrightarrow> b1 = b2"
  proof (intro allI impI)
    fix b1 b2 t1 t2
    assume h: "bookings s' b1 = Some t1 \<and> bookings s' b2 = Some t2
      \<and> ticketTrainId t1 = ticketTrainId t2 \<and> seatNumber t1 = seatNumber t2"
    show "b1 = b2"
    proof (cases "b1 = bid")
      case True
      with h bk have t1: "t1 = tk" by simp
      show ?thesis
      proof (cases "b2 = bid")
        case True with \<open>b1 = bid\<close> show ?thesis by simp
      next
        case False
        with h bk have "bookings s b2 = Some t2" by simp
        from nobody [OF this] h t1 tkf show ?thesis by simp
      qed
    next
      case False
      with h bk have o1: "bookings s b1 = Some t1" by simp
      show ?thesis
      proof (cases "b2 = bid")
        case True
        with h bk have "t2 = tk" by simp
        with nobody [OF o1] h tkf show ?thesis by simp
      next
        case False
        with h bk have "bookings s b2 = Some t2" by simp
        from inj [OF o1 this] h show ?thesis by simp
      qed
    qed
  qed
  show ?thesis
    unfolding ledger_consistent_def using wf' taken' inj' by blast
qed

lemma consistent_release:
  assumes inv: "ledger_consistent s" and tkt: "bookings s bid = Some tk"
    and f: "findTrainRef (trains s) (ticketTrainId tk) = Inr k"
    and tr: "trains s' = (trains s)[k := (trains s ! k)
               \<lparr>seatAvailability := (seatAvailability (trains s ! k))[nat (seatNumber tk - 1) := True]\<rparr>]"
    and bk: "bookings s' = (bookings s)(bid := None)"
  shows "ledger_consistent s'"
proof -
  from inv have wf: "\<forall>t\<in>set (trains s). wf_train t"
    and taken: "\<And>bid tk. bookings s bid = Some tk
        \<Longrightarrow> seatTaken (trains s) (ticketTrainId tk) (seatNumber tk)"
    and inj: "\<And>b1 b2 t1 t2. bookings s b1 = Some t1 \<Longrightarrow> bookings s b2 = Some t2
        \<Longrightarrow> ticketTrainId t1 = ticketTrainId t2 \<Longrightarrow> seatNumber t1 = seatNumber t2 \<Longrightarrow> b1 = b2"
    unfolding ledger_consistent_def by blast+
  from findTrainRef_Inr [OF f] have k: "k < length (trains s)" by simp
  from wf k have wfk: "wf_train (trains s ! k)" by simp
  then have wf': "\<forall>t\<in>set (trains s'). wf_train t"
    unfolding tr by (intro wf_trains_update [OF wf] wf_train_seat_update)
  from taken [OF tkt] have n1: "1 \<le> seatNumber tk" by (rule seatTaken_D)
  have taken': "\<forall>b t. bookings s' b = Some t
      \<longrightarrow> seatTaken (trains s') (ticketTrainId t) (seatNumber t)"
  proof (intro allI impI)
    fix b t assume "bookings s' b = Some t"
    with bk have ne: "b \<noteq> bid" and o: "bookings s b = Some t"
      by (auto split: if_splits)
    from inj [OF o tkt] ne
    have "\<not> (ticketTrainId t = ticketTrainId tk \<and> seatNumber t = seatNumber tk)" by blast
    from seatTaken_release_other [OF f n1 taken [OF o] this]
    show "seatTaken (trains s') (ticketTrainId t) (seatNumber t)" unfolding tr .
  qed
  have inj': "\<forall>b1 b2 t1 t2. bookings s' b1 = Some t1 \<and> bookings s' b2 = Some t2
      \<and> ticketTrainId t1 = ticketTrainId t2 \<and> seatNumber t1 = seatNumber t2 \<longrightarrow> b1 = b2"
    unfolding bk using inj by (auto split: if_splits)
  show ?thesis
    unfolding ledger_consistent_def using wf' taken' inj' by blast
qed

lemma consistent_book:
  assumes inv: "ledger_consistent s" and bt: "bookTicket tid p now s = Some (r, s')"
  shows "ledger_consistent s'"
proof -
  from inv have wf: "\<forall>t\<in>set (trains s). wf_train t" by (simp add: ledger_consistent_def)
  from bookTicket_cases [OF wf bt] show ?thesis
  proof (elim disjE exE conjE)
    assume "trains s' = trains s" and "bookings s' = bookings s"
    with inv show ?thesis by (rule consistent_same)
  next
    fix bid k n t1
    assume f: "findTrainRef (trains s) tid = Inr k"
      and eq: "bookNextAvailableSeat (trains s ! k) = (Inr n, t1)"
      and fresh: "bookings s bid = None"
      and tr: "trains s' = (trains s)[k := t1]"
      and bk: "bookings s' = (bookings s)(bid \<mapsto>
                  \<lparr>bookingId = bid, ticketTrainId = tid, seatNumber = n,
                   passengerName = p, bookingTime = now\<rparr>)"
    note b = bookNext_Inr [OF eq]
    have tr': "trains s' = (trains s)[k := (trains s ! k)
               \<lparr>seatAvailability := (seatAvailability (trains s ! k))[nat (n - 1) := False]\<rparr>]"
      using tr b(5) by simp
    show ?thesis
      by (rule consistent_insert [OF inv f b(1) b(2) b(3) fresh tr' bk]) simp_all
  qed
qed

lemma bookSpecificSeat_cases:
  "bookSpecificSeat t n = (r, t') \<Longrightarrow>
     (r = Inr True \<and> 1 \<le> n \<and> n \<le> totalSeats t \<and> seatAvailability t ! nat (n - 1)
        \<and> t' = t\<lparr>seatAvailability := (seatAvailability t)[nat (n - 1) := False]\<rparr>)
     \<or> (r \<noteq> Inr True \<and> t' = t)"
  by (auto simp: bookSpecificSeat_def split: if_splits)

lemma cancelSeat_cases:
  "cancelSeat t n = (r, t') \<Longrightarrow>
     (r = Inr True \<and> 1 \<le> n \<and> n \<le> totalSeats t
        \<and> t' = t\<lparr>seatAvailability := (seatAvailability t)[nat (n - 1) := True]\<rparr>)
     \<or> (r \<noteq> Inr True \<and> t' = t)"
  by (auto simp: cancelSeat_def split: if_splits)

lemma cancelTicket_absent:
  assumes "cancelTicket bid s = (b, s')" and "bookings s bid = None"
  shows "s' = s \<and> \<not> b"
  using assms by (simp add: cancelTicket_def findTicket_def)

lemma cancelTicket_no_train:
  assumes "cancelTicket bid s = (b, s')" and "bookings s bid = Some tk"
    and "findTrainRef (trains s) (ticketTrainId tk) = Inl e"
  shows "s' = s \<and> \<not> b"
  using assms by (simp add: cancelTicket_def findTicket_def)

lemma cancelTicket_released:
  assumes ct: "cancelTicket bid s = (b, s')" and tkt: "bookings s bid = Some tk"
    and f: "findTrainRef (trains s) (ticketTrainId tk) = Inr k"
    and cs: "cancelSeat (trains s ! k) (seatNumber tk) = (Inr True, t1)"
  shows "s' = s\<lparr>trains := (trains s)[k := t1], bookings := (bookings s)(bid := None)\<rparr> \<and> b"
  using ct by (simp add: cancelTicket_def findTicket_def tkt f cs)

lemma cancelTicket_not_released:
  assumes ct: "cancelTicket bid s = (b, s')" and tkt: "bookings s bid = Some tk"
    and f: "findTrainRef (trains s) (ticketTrainId tk) = Inr k"
    and cs: "cancelSeat (trains s ! k) (seatNumber tk) = (r, t1)" and r: "r \<noteq> Inr True"
  shows "s' = s\<lparr>trains := (trains s)[k := t1]\<rparr> \<and> \<not> b"
proof (cases r)
  case (Inl e)
  with cs have "cancelSeat (trains s ! k) (seatNumber tk) = (Inl e, t1)" by simp
  with ct show ?thesis by (simp add: cancelTicket_def findTicket_def tkt f)
next
  case (Inr v)
  with r have "v = False" by simp
  with Inr cs have "cancelSeat (trains s ! k) (seatNumber tk) = (Inr False, t1)" by simp
  with ct show ?thesis by (simp add: cancelTicket_def findTicket_def tkt f)
qed

lemma consistent_cancel:
  assumes inv: "ledger_consistent s" and ct: "cancelTicket bid s = (b, s')"
  shows "ledger_consistent s'"
proof (cases "bookings s bid")
  case None
  from cancelTicket_absent [OF ct None] inv show ?thesis by simp
next
  case tkt: (Some tk)
  show ?thesis
  proof (cases "findTrainRef (trains s) (ticketTrainId tk)")
    case (Inl e)
    from cancelTicket_no_train [OF ct tkt Inl] inv show ?thesis by simp
  next
    case f: (Inr k)
    obtain r t1 where cs: "cancelSeat (trains s ! k) (seatNumber tk) = (r, t1)"
      by (cases "cancelSeat (trains s ! k) (seatNumber tk)")
    from cancelSeat_cases [OF cs] show ?thesis
    proof (elim disjE conjE)
      assume rT: "r = Inr True"
        and t1: "t1 = (trains s ! k)\<lparr>seatAvailability :=
              (seatAvailability (trains s ! k))[nat (seatNumber tk - 1) := True]\<rparr>"
      from cs rT have cs': "cancelSeat (trains s ! k) (seatNumber tk) = (Inr True, t1)" by simp
      from cancelTicket_released [OF ct tkt f cs']
      have tr: "trains s' = (trains s)[k := t1]"
        and bk: "bookings s' = (bookings s)(bid := None)" by simp_all
      from tr t1 have tr': "trains s' = (trains s)[k := (trains s ! k)\<lparr>seatAvailability :=
              (seatAvailability (trains s ! k))[nat (seatNumber tk - 1) := True]\<rparr>]" by simp
      show ?thesis by (rule consistent_release [OF inv tkt f tr' bk])
    next
      assume rF: "r \<noteq> Inr True" and t1: "t1 = trains s ! k"
      from cancelTicket_not_released [OF ct tkt f cs rF] t1
      have "trains s' = trains s" and "bookings s' = bookings s" by simp_all
      with inv show ?thesis by (rule consistent_same)
    qed
  qed
qed

lemma loadTicketLine_parse_fail:
  assumes "parseTicketLine line = Inl e"
  shows "loadTicketLine line now (s, a, b) = ((s, a, b + 1), [ErrorParsingLine e line])"
  using assms by (simp add: loadTicketLine_def)

lemma loadTicketLine_no_train:
  assumes "parseTicketLine line = Inr (bid, tid, seat, pname, bt)"
    and "findTrainRef (trains s) tid = Inl e"
  shows "loadTicketLine line now (s, a, b) = ((s, a, b + 1), [ErrorFindingTrain e line])"
  using assms by (simp add: loadTicketLine_def)

lemma loadTicketLine_seat_fail:
  assumes p: "parseTicketLine line = Inr (bid, tid, seat, pname, bt)"
    and f: "findTrainRef (trains s) tid = Inr k"
    and bs: "bookSpecificSeat (trains s ! k) seat = (r, t1)" and r: "r \<noteq> Inr True"
  shows "\<exists>out. out \<noteq> [] \<and> loadTicketLine line now (s, a, b)
           = ((s\<lparr>trains := (trains s)[k := t1]\<rparr>, a, b + 1), out)"
proof (cases r)
  case (Inl e)
  with bs have "bookSpecificSeat (trains s ! k) seat = (Inl e, t1)" by simp
  then show ?thesis by (simp add: loadTicketLine_def p f)
next
  case (Inr v)
  with r have "v = False" by simp
  with Inr bs have "bookSpecificSeat (trains s ! k) seat = (Inr False, t1)" by simp
  then show ?thesis by (simp add: loadTicketLine_def p f)
qed

lemma loadTicketLine_loaded:
  assumes p: "parseTicketLine line = Inr (bid, tid, seat, pname, bt)"
    and f: "findTrainRef (trains s) tid = Inr k"
    and bs: "bookSpecificSeat (trains s ! k) seat = (Inr True, t1)"
    and tn: "Ticket_new bid tid seat pname now = Inr ticket"
  shows "loadTicketLine line now (s, a, b)
           = ((s\<lparr>trains := (trains s)[k := t1],
                  bookings := fst (emplace (bookings s) bid ticket)\<rparr>, a + 1, b), [])"
  by (simp add: loadTicketLine_def p f bs tn)

lemma loadTicketLine_rejected:
  assumes p: "parseTicketLine line = Inr (bid, tid, seat, pname, bt)"
    and f: "findTrainRef (trains s) tid = Inr k"
    and bs: "bookSpecificSeat (trains s ! k) seat = (Inr True, t1)"
    and tn: "Ticket_new bid tid seat pname now = Inl e"
    and cs: "cancelSeat t1 seat = (r2, t2)"
  shows "\<exists>out. out \<noteq> [] \<and> loadTicketLine line now (s, a, b)
           = ((s\<lparr>trains := (trains s)[k := t2]\<rparr>, a, b + 1), out)"
proof (cases r2)
  case (Inl e')
  with cs have "cancelSeat t1 seat = (Inl e', t2)" by simp
  then show ?thesis by (simp add: loadTicketLine_def p f bs tn)
next
  case (Inr v)
  with cs have "cancelSeat t1 seat = (Inr v, t2)" by simp
  then show ?thesis by (simp add: loadTicketLine_def p f bs tn)
qed

lemma cancelSeat_undoes_bookSpecific:
  assumes wf: "wf_train t" and bs: "bookSpecificSeat t n = (Inr True, t1)"
  shows "cancelSeat t1 n = (Inr True, t)"
proof -
  from bookSpecificSeat_cases [OF bs]
  have r: "1 \<le> n" "n \<le> totalSeats t" and av: "seatAvailability t ! nat (n - 1)"
    and t1: "t1 = t\<lparr>seatAvailability := (seatAvailability t)[nat (n - 1) := False]\<rparr>"
    by simp_all
  have len: "nat (n - 1) < length (seatAvailability t)"
    using r wf by (simp add: wf_train_def)
  have "(seatAvailability t)[nat (n - 1) := True] = seatAvailability t"
    using av len by (simp add: list_update_same_conv)
  then show ?thesis using r len by (simp add: cancelSeat_def t1)
qed

lemma Ticket_new_Inr:
  assumes "Ticket_new bid tid seat pname now = Inr ticket"
  shows "ticket = \<lparr>bookingId = bid, ticketTrainId = tid, seatNumber = seat,
                   passengerName = pname, bookingTime = now\<rparr>"
    and "bid \<noteq> []" and "0 < tid" and "0 < seat" and "pname \<noteq> []"
  using assms by (auto simp: Ticket_new_def split: if_splits)

lemma consistent_loadTicketLine:
  assumes inv: "ledger_consistent s"
    and ld: "loadTicketLine line now (s, a, b) = ((s', a', b'), out)"
  shows "ledger_consistent s'"
proof (cases "parseTicketLine line")
  case (Inl e)
  from loadTicketLine_parse_fail [OF Inl, of now s a b] ld inv show ?thesis by simp
next
  case (Inr row)
  then obtain bid tid seat pname bt
    where p: "parseTicketLine line = Inr (bid, tid, seat, pname, bt)"
    by (cases row) auto
  show ?thesis
  proof (cases "findTrainRef (trains s) tid")
    case (Inl e)
    from loadTicketLine_no_train [OF p Inl, of now a b] ld inv show ?thesis by simp
  next
    case f: (Inr k)
    from findTrainRef_Inr [OF f] have k: "k < length (trains s)" by simp
    from inv k have wfk: "wf_train (trains s ! k)" by (simp add: ledger_consistent_def)
    obtain r t1 where bs: "bookSpecificSeat (trains s ! k) seat = (r, t1)"
      by (cases "bookSpecificSeat (trains s ! k) seat")
    from bookSpecificSeat_cases [OF bs] show ?thesis
    proof (elim disjE conjE)
      assume rF: "r \<noteq> Inr True" and t1: "t1 = trains s ! k"
      from loadTicketLine_seat_fail [OF p f bs rF, of now a b] ld t1
      have "trains s' = trains s" and "bookings s' = bookings s" by auto
      with inv show ?thesis by (rule consistent_same)
    next
      assume rT: "r = Inr True" and n: "1 \<le> seat" "seat \<le> totalSeats (trains s ! k)"
        and av: "seatAvailability (trains s ! k) ! nat (seat - 1)"
        and t1: "t1 = (trains s ! k)\<lparr>seatAvailability :=
              (seatAvailability (trains s ! k))[nat (seat - 1) := False]\<rparr>"
      from bs rT have bs': "bookSpecificSeat (trains s ! k) seat = (Inr True, t1)" by simp
      show ?thesis
      proof (cases "Ticket_new bid tid seat pname now")
        case (Inl e)
        from cancelSeat_undoes_bookSpecific [OF wfk bs']
        have cs: "cancelSeat t1 seat = (Inr True, trains s ! k)" .
        from loadTicketLine_rejected [OF p f bs' Inl cs, of a b] ld
        have "trains s' = trains s" and "bookings s' = bookings s" by auto
        with inv show ?thesis by (rule consistent_same)
      next
        case (Inr ticket)
        from loadTicketLine_loaded [OF p f bs' Inr, of a b] ld
        have tr: "trains s' = (trains s)[k := t1]"
          and bk: "bookings s' = fst (emplace (bookings s) bid ticket)" by auto
        from tr t1 have tr': "trains s' = (trains s)[k := (trains s ! k)\<lparr>seatAvailability :=
              (seatAvailability (trains s ! k))[nat (seat - 1) := False]\<rparr>]" by simp
        note tk = Ticket_new_Inr [OF Inr]
        show ?thesis
        proof (cases "bookings s bid")
          case None
          with bk have bk': "bookings s' = (bookings s)(bid \<mapsto> ticket)"
            by (simp add: emplace_def)
          show ?thesis
            by (rule consistent_insert [OF inv f n av None tr' bk']) (simp_all add: tk(1))
        next
          case (Some old)
          with bk have bk': "bookings s' = bookings s" by (simp add: emplace_def)
          show ?thesis by (rule consistent_take [OF inv k tr' bk'])
        qed
      qed
    qed
  qed
qed

lemma consistent_loadTicketLines:
  assumes "ledger_consistent s"
    and "loadTicketLines ls clock i (s, a, b) out = ((s', a', b'), out')"
  shows "ledger_consistent s'"
  using assms
proof (induction ls arbitrary: i s a b out)
  case Nil
  then show ?case by simp
next
  case (Cons l ls)
  obtain s1 a1 b1 o1 where st: "loadTicketLine l (clock i) (s, a, b) = ((s1, a1, b1), o1)"
    by (cases "loadTicketLine l (clock i) (s, a, b)") auto
  from consistent_loadTicketLine [OF Cons.prems(1) st] have "ledger_consistent s1" .
  moreover from Cons.prems(2) st
  have "loadTicketLines ls clock (Suc i) (s1, a1, b1) (out @ o1) = ((s', a', b'), out')"
    by simp
  ultimately show ?case by (rule Cons.IH)
qed

lemma reconcile_loop_wf:
  "wf_train t \<Longrightarrow> wf_train (fst (reconcile_loop t i bkd n))"
proof (induction t i bkd n rule: reconcile_loop.induct)
  case (1 train i bookedSeats nseats)
  show ?case
  proof (cases "i < bookedSeats \<and> i < nseats")
    case False
    with "1.prems" show ?thesis by (subst reconcile_loop.simps) auto
  next
    case True
    obtain r t' where bn: "bookNextAvailableSeat train = (r, t')"
      by (cases "bookNextAvailableSeat train")
    from bookNext_wf [OF "1.prems"] bn have wf': "wf_train t'" by simp
    show ?thesis
    proof (cases r)
      case (Inl e)
      with True bn wf' show ?thesis by (subst reconcile_loop.simps) simp
    next
      case (Inr m)
      with bn have bn': "bookNextAvailableSeat train = (Inr m, t')" by simp
      from "1.IH" [OF True bn' [symmetric] refl wf'] True bn' show ?thesis
        by (subst reconcile_loop.simps) simp
    qed
  qed
qed

lemma loadTrainLine_Some:
  assumes "loadTrainLine line = (Some t, out)"
  obtains tid name nseats avail train
  where "parseTrainLine line = Inr (tid, name, nseats, avail)"
    and "Train_new tid name nseats = Inr train"
    and "reconcile_loop train 0 (wrap32 (nseats - avail)) nseats = (t, out)"
proof (cases "parseTrainLine line")
  case (Inl e)
  with assms show ?thesis by (simp add: loadTrainLine_def)
next
  case (Inr row)
  then obtain tid name nseats avail
    where p: "parseTrainLine line = Inr (tid, name, nseats, avail)"
    by (cases row) auto
  show ?thesis
  proof (cases "Train_new tid name nseats")
    case (Inl e)
    with assms p show ?thesis by (simp add: loadTrainLine_def)
  next
    case (Inr train)
    with assms p have "reconcile_loop train 0 (wrap32 (nseats - avail)) nseats = (t, out)"
      by (simp add: loadTrainLine_def split: prod.splits)
    with p Inr that show ?thesis by blast
  qed
qed

lemma loadTrainLine_wf:
  assumes "loadTrainLine line = (Some t, out)"
  shows "wf_train t"
proof -
  from assms obtain tid name nseats avail train
    where tn: "Train_new tid name nseats = Inr train"
      and rl: "reconcile_loop train 0 (wrap32 (nseats - avail)) nseats = (t, out)"
    by (rule loadTrainLine_Some)
  from rl have t: "t = fst (reconcile_loop train 0 (wrap32 (nseats - avail)) nseats)" by simp
  from Train_new_wf [OF tn] show ?thesis unfolding t by (rule reconcile_loop_wf)
qed

lemma loadTrainLines_wf:
  assumes "\<forall>t\<in>set ts. wf_train t"
  shows "\<forall>t\<in>set (fst (loadTrainLines ls ts out)). wf_train t"
  using assms
proof (induction ls arbitrary: ts out)
  case Nil
  then show ?case by simp
next
  case (Cons l ls)
  obtain r o1 where ll: "loadTrainLine l = (r, o1)" by (cases "loadTrainLine l")
  show ?case
  proof (cases r)
    case None
    with ll Cons.IH [OF Cons.prems] show ?thesis by simp
  next
    case (Some t)
    with ll have "wf_train t" by (intro loadTrainLine_wf [of l t o1]) simp
    with Cons.prems have "\<forall>u\<in>set (ts @ [t]). wf_train u" by simp
    from Cons.IH [OF this] ll Some show ?thesis by simp
  qed
qed

lemma loadTrainsFromCSV_wf:
  assumes "\<forall>t\<in>set (trains s). wf_train t"
  shows "\<forall>t\<in>set (trains (snd (loadTrainsFromCSV fn fl s))). wf_train t"
proof (cases fl)
  case None
  with assms show ?thesis by (simp add: loadTrainsFromCSV_def)
next
  case (Some lines)
  have "\<forall>t\<in>set (fst (loadTrainLines (drop 1 lines) [] [])). wf_train t"
    by (rule loadTrainLines_wf) simp
  with Some show ?thesis
    by (simp add: loadTrainsFromCSV_def split: prod.splits)
qed

lemma loadTrainsFromCSV_bookings:
  "bookings (snd (loadTrainsFromCSV fn fl s)) = bookings s"
  by (cases fl) (simp_all add: loadTrainsFromCSV_def split: prod.splits)

lemma init_trains:
  "trains (ReservationSystem_init g) =
     [\<lparr>trainId = 1001, trainName = ''Express Delhi'', totalSeats = 100,
        seatAvailability = replicate 100 True\<rparr>,
      \<lparr>trainId = 1002, trainName = ''Mumbai Local'', totalSeats = 100,
        seatAvailability = replicate 100 True\<rparr>,
      \<lparr>trainId = 1003, trainName = ''Chennai Mail'', totalSeats = 100,
        seatAvailability = replicate 100 True\<rparr>,
      \<lparr>trainId = 1004, trainName = ''Kolkata Express'', totalSeats = 100,
        seatAvailability = replicate 100 True\<rparr>]"
  by (simp add: ReservationSystem_init_def Train_new_def)

lemma init_bookings: "bookings (ReservationSystem_init g) = Map.empty"
  by (simp add: ReservationSystem_init_def)

lemma init_gen: "gen (ReservationSystem_init g) = g"
  by (simp add: ReservationSystem_init_def)

lemma consistent_empty_ledger:
  assumes "\<forall>t\<in>set (trains s). wf_train t" and "bookings s = Map.empty"
  shows "ledger_consistent s"
  using assms by (simp add: ledger_consistent_def)

lemma consistent_loadTicketsFromCSV:
  assumes "ledger_consistent s"
  shows "ledger_consistent (snd (loadTicketsFromCSV fn fl clock s))"
proof (cases fl)
  case None
  with assms show ?thesis by (simp add: loadTicketsFromCSV_def)
next
  case (Some lines)
  let ?s0 = "s\<lparr>bookings := Map.empty\<rparr>"
  from assms have c0: "ledger_consistent ?s0"
    by (intro consistent_empty_ledger) (simp_all add: ledger_consistent_def)
  obtain s' a' b' out' where
    ld: "loadTicketLines (drop 1 lines) clock 0 (?s0, 0, 0) [] = ((s', a', b'), out')"
    by (cases "loadTicketLines (drop 1 lines) clock 0 (?s0, 0, 0) []") auto
  from consistent_loadTicketLines [OF c0 ld] have "ledger_consistent s'" .
  with Some ld show ?thesis by (simp add: loadTicketsFromCSV_def)
qed

lemma consistent_startup: "ledger_consistent (main_startup trainsFile ticketsFile clock g)"
proof -
  have "\<forall>t\<in>set (trains (ReservationSystem_init g)). wf_train t"
    by (simp add: init_trains wf_train_def)
  then have "\<forall>t\<in>set (trains (main_loadTrains trainsFile (ReservationSystem_init g))). wf_train t"
    unfolding main_loadTrains_def by (rule loadTrainsFromCSV_wf)
  moreover have "bookings (main_loadTrains trainsFile (ReservationSystem_init g)) = Map.empty"
    unfolding main_loadTrains_def by (simp add: loadTrainsFromCSV_bookings init_bookings)
  ultimately have "ledger_consistent (main_loadTrains trainsFile (ReservationSystem_init g))"
    by (rule consistent_empty_ledger)
  then show ?thesis
    unfolding main_startup_def main_loadTickets_def by (rule consistent_loadTicketsFromCSV)
qed

lemma reachable_consistent: "reachable s \<Longrightarrow> ledger_consistent s"
proof (induction rule: reachable.induct)
  case (reachable_start trainsFile ticketsFile clock g)
  show ?case by (rule consistent_startup)
next
  case (reachable_book s tid pname now r s')
  then show ?case by (intro consistent_book [of s tid pname now r s'])
next
  case (reachable_cancel s bid b s')
  then show ?case by (intro consistent_cancel [of s bid b s'])
qed

section \<open>Facts about the CSV loaders\<close>

lemma count_list_replicate: "count_list (replicate n x) x = n"
  by (induction n) simp_all

lemma stoi_range: "stoi str = Some v \<Longrightarrow> - 2147483648 \<le> v \<and> v \<le> 2147483647"
  by (auto simp: stoi_def Let_def split: if_splits)

lemma parseTrainLine_range:
  assumes "parseTrainLine line = Inr (tid, name, nseats, avail)"
  shows "- 2147483648 \<le> nseats \<and> nseats \<le> 2147483647
       \<and> - 2147483648 \<le> avail \<and> avail \<le> 2147483647"
proof -
  from assms obtain tok3 tok4 where "stoi tok3 = Some nseats" and "stoi tok4 = Some avail"
    by (auto simp: parseTrainLine_def split: option.splits prod.splits)
  then show ?thesis using stoi_range by blast
qed

lemma wrap32_id: "- 2147483648 \<le> x \<Longrightarrow> x \<le> 2147483647 \<Longrightarrow> wrap32 x = x"
  by (simp add: wrap32_def)

lemma take_first_of_rest:
  "(replicate a False @ replicate (Suc c) True)[a := False]
     = replicate (Suc a) False @ replicate c True"
proof -
  have "(replicate a False @ replicate (Suc c) True)[a := False]
      = replicate a False @ (False # replicate c True)"
    by (simp add: list_update_append)
  also have "\<dots> = (replicate a False @ [False]) @ replicate c True" by simp
  also have "replicate a False @ [False] = replicate (Suc a) False"
    by (simp add: replicate_append_same)
  finally show ?thesis .
qed

lemma bookNext_on_prefix:
  assumes i: "0 \<le> i" "i < n" and n: "totalSeats t = n"
    and xs: "seatAvailability t = replicate (nat i) False @ replicate (nat (n - i)) True"
  shows "bookNextAvailableSeat t
      = (Inr (i + 1), t\<lparr>seatAvailability :=
            replicate (nat (i + 1)) False @ replicate (nat (n - (i + 1))) True\<rparr>)"
proof -
  have at_i: "seatAvailability t ! nat i"
    using i by (simp add: xs nth_append)
  have before: "\<And>j. 0 \<le> j \<Longrightarrow> j < i \<Longrightarrow> \<not> seatAvailability t ! nat j"
    by (simp add: xs nth_append)
  obtain r t' where bn: "bookNextAvailableSeat t = (r, t')"
    by (cases "bookNextAvailableSeat t")
  show ?thesis
  proof (cases r)
    case (Inl e)
    with bn have "bookNextAvailableSeat t = (Inl e, t')" by simp
    from bookNext_Inl(3) [OF this] i n have "\<not> seatAvailability t ! nat i" by blast
    with at_i show ?thesis by simp
  next
    case (Inr m)
    with bn have eq: "bookNextAvailableSeat t = (Inr m, t')" by simp
    note f = bookNext_Inr [OF eq]
    have "\<not> m - 1 < i" using before [of "m - 1"] f(1,3) by auto
    moreover have "\<not> i < m - 1" using f(4) i at_i by blast
    ultimately have m: "m = i + 1" by simp
    have suc: "nat (n - i) = Suc (nat (n - (i + 1)))" using i by simp
    have "(seatAvailability t)[nat i := False]
        = replicate (nat (i + 1)) False @ replicate (nat (n - (i + 1))) True"
      using take_first_of_rest [of "nat i" "nat (n - (i + 1))"] i
      by (simp add: xs suc nat_add_distrib)
    with eq m f(5) show ?thesis by simp
  qed
qed

lemma reconcile_loop_prefix:
  assumes "0 \<le> i" and "i \<le> n" and "totalSeats t = n"
    and "seatAvailability t = replicate (nat i) False @ replicate (nat (n - i)) True"
  shows "reconcile_loop t i b n
      = (t\<lparr>seatAvailability := replicate (nat (max i (min b n))) False
                @ replicate (nat (n - max i (min b n))) True\<rparr>, [])"
  using assms
proof (induction t i b n rule: reconcile_loop.induct)
  case (1 train i bookedSeats nseats)
  show ?case
  proof (cases "i < bookedSeats \<and> i < nseats")
    case False
    then have "max i (min bookedSeats nseats) = i" by auto
    with False "1.prems" show ?thesis
      by (subst reconcile_loop.simps) auto
  next
    case True
    let ?t' = "train\<lparr>seatAvailability := replicate (nat (i + 1)) False
                  @ replicate (nat (nseats - (i + 1))) True\<rparr>"
    have bn: "bookNextAvailableSeat train = (Inr (i + 1), ?t')"
      using True "1.prems" by (intro bookNext_on_prefix) simp_all
    have mx: "max (i + 1) (min bookedSeats nseats) = max i (min bookedSeats nseats)"
      using True by auto
    have ih: "reconcile_loop ?t' (i + 1) bookedSeats nseats
        = (?t'\<lparr>seatAvailability :=
              replicate (nat (max (i + 1) (min bookedSeats nseats))) False
              @ replicate (nat (nseats - max (i + 1) (min bookedSeats nseats))) True\<rparr>, [])"
      using True "1.prems" by (intro "1.IH" [OF True bn [symmetric] refl]) simp_all
    show ?thesis
      using True bn ih by (subst reconcile_loop.simps) (simp add: mx)
  qed
qed

lemma loadTrainLine_result:
  assumes p: "parseTrainLine line = Inr (tid, name, nseats, avail)"
    and v: "0 < tid" "name \<noteq> []" "0 < nseats"
  shows "loadTrainLine line
      = (Some \<lparr>trainId = tid, trainName = name, totalSeats = nseats,
              seatAvailability =
                replicate (nat (min (max 0 (wrap32 (nseats - avail))) nseats)) False
                @ replicate (nat (nseats - min (max 0 (wrap32 (nseats - avail))) nseats)) True\<rparr>,
         [])"
proof -
  let ?t = "\<lparr>trainId = tid, trainName = name, totalSeats = nseats,
              seatAvailability = replicate (nat nseats) True\<rparr>"
  have tn: "Train_new tid name nseats = Inr ?t" using v by (simp add: Train_new_def)
  have mm: "max 0 (min (wrap32 (nseats - avail)) nseats)
      = min (max 0 (wrap32 (nseats - avail))) nseats"
    using v(3) by auto
  have "reconcile_loop ?t 0 (wrap32 (nseats - avail)) nseats
      = (?t\<lparr>seatAvailability :=
            replicate (nat (max 0 (min (wrap32 (nseats - avail)) nseats))) False
            @ replicate (nat (nseats - max 0 (min (wrap32 (nseats - avail)) nseats))) True\<rparr>, [])"
    using v(3) by (intro reconcile_loop_prefix) simp_all
  then show ?thesis by (simp add: loadTrainLine_def p tn mm)
qed

lemma loadTrainLine_never_warns:
  "WarnInconsistentSeatData tid \<notin> set (snd (loadTrainLine line))"
proof (cases "parseTrainLine line")
  case (Inl e)
  then show ?thesis by (simp add: loadTrainLine_def)
next
  case (Inr row)
  then obtain i name nseats avail
    where p: "parseTrainLine line = Inr (i, name, nseats, avail)"
    by (cases row) auto
  show ?thesis
  proof (cases "0 < i \<and> name \<noteq> [] \<and> 0 < nseats")
    case True
    with loadTrainLine_result [OF p] show ?thesis by simp
  next
    case False
    then have "\<exists>e. Train_new i name nseats = Inl e"
      by (auto simp: Train_new_def)
    then obtain e where "Train_new i name nseats = Inl e" ..
    with p show ?thesis by (simp add: loadTrainLine_def)
  qed
qed

lemmas parse_simps = parseTrainLine_def parseTicketLine_def getline_delim_def stoi_def
  isspace_def isdigit_def digits_value_def

lemma loadTrainLines_set:
  "set (fst (loadTrainLines ls ts out))
     = set ts \<union> {t. \<exists>l\<in>set ls. fst (loadTrainLine l) = Some t}"
proof (induction ls arbitrary: ts out)
  case Nil
  then show ?case by simp
next
  case (Cons l ls)
  obtain r o1 where ll: "loadTrainLine l = (r, o1)" by (cases "loadTrainLine l")
  show ?case
  proof (cases r)
    case None
    with ll Cons.IH [of ts "out @ o1"] show ?thesis by auto
  next
    case (Some t)
    with ll Cons.IH [of "ts @ [t]" "out @ o1"] show ?thesis by auto
  qed
qed

lemma loadTrainsFromCSV_trains:
  "trains (snd (loadTrainsFromCSV filename (Some lines) s))
     = fst (loadTrainLines (drop 1 lines) [] [])"
  by (cases "loadTrainLines (drop 1 lines) [] []") (simp add: loadTrainsFromCSV_def)

lemma loadTrainsFromCSV_output:
  "fst (loadTrainsFromCSV filename (Some lines) s)
     = Inr (snd (loadTrainLines (drop 1 lines) [] []))"
  by (cases "loadTrainLines (drop 1 lines) [] []") (simp add: loadTrainsFromCSV_def)


section \<open>What the ticket loader keeps from line to line\<close>






section \<open>Seat allocation\<close>

text \<open>
  C4. For every Train, \<open>bookNextAvailableSeat\<close> returns the lowest 1-based seat number
  whose seat is available and marks exactly that seat taken: the seat was available
  before, every lower seat was taken, the seat is taken afterwards, every other seat
  number answers \<open>isSeatAvailable\<close> as before and the other fields are unchanged.
  It throws NoSeatsAvailable exactly when no seat is available (the available count is
  0), and then the train is unchanged.
\<close>

theorem bookNextAvailableSeat_lowest:
  assumes "wf_train t"
  shows "(case bookNextAvailableSeat t of
            (Inr n, t') \<Rightarrow>
                isSeatAvailable t n = Inr True
              \<and> (\<forall>m. 1 \<le> m \<and> m < n \<longrightarrow> isSeatAvailable t m = Inr False)
              \<and> isSeatAvailable t' n = Inr False
              \<and> (\<forall>m. m \<noteq> n \<longrightarrow> isSeatAvailable t' m = isSeatAvailable t m)
              \<and> seatAvailability t' = (seatAvailability t)[nat (n - 1) := False]
              \<and> trainId t' = trainId t \<and> trainName t' = trainName t
              \<and> totalSeats t' = totalSeats t
          | (Inl e, t') \<Rightarrow> e = NoSeatsAvailableException (trainId t) \<and> t' = t)
       \<and> ((\<exists>e t'. bookNextAvailableSeat t = (Inl e, t')) \<longleftrightarrow> getAvailableSeatsCount t = 0)"
proof (cases "bookNextAvailableSeat t")
  case (Pair r t')
  show ?thesis
  proof (cases r)
    case (Inl e)
    with Pair have eq: "bookNextAvailableSeat t = (Inl e, t')" by simp
    from bookNext_Inl [OF eq] no_seat_available_iff [OF assms] eq
    show ?thesis by auto
  next
    case (Inr n)
    with Pair have eq: "bookNextAvailableSeat t = (Inr n, t')" by simp
    note f = bookNext_Inr [OF eq]
    have len: "nat (n - 1) < length (seatAvailability t)"
      using f(1,2) assms by (simp add: wf_train_def)
    have a: "isSeatAvailable t n = Inr True"
      using f(1,2,3) by (simp add: isSeatAvailable_def)
    have b: "\<forall>m. 1 \<le> m \<and> m < n \<longrightarrow> isSeatAvailable t m = Inr False"
    proof (intro allI impI)
      fix m assume m: "1 \<le> m \<and> m < n"
      then have "0 \<le> m - 1 \<and> m - 1 < n - 1" by simp
      with f(4) have "\<not> seatAvailability t ! nat (m - 1)" by blast
      with m f(2) show "isSeatAvailable t m = Inr False"
        by (simp add: isSeatAvailable_def)
    qed
    have c: "isSeatAvailable t' n = Inr False"
      using f(1,2) len by (simp add: isSeatAvailable_def f(5))
    have d: "\<forall>m. m \<noteq> n \<longrightarrow> isSeatAvailable t' m = isSeatAvailable t m"
    proof (intro allI impI)
      fix m :: int assume "m \<noteq> n"
      show "isSeatAvailable t' m = isSeatAvailable t m"
      proof (cases "m < 1 \<or> m > totalSeats t")
        case True
        then show ?thesis by (auto simp: isSeatAvailable_def f(5))
      next
        case False
        with \<open>m \<noteq> n\<close> f(1) have "nat (n - 1) \<noteq> nat (m - 1)" by arith
        with False show ?thesis by (simp add: isSeatAvailable_def f(5))
      qed
    qed
    have "0 \<le> n - 1 \<and> n - 1 < totalSeats t" using f(1,2) by simp
    with f(3) have "\<not> (\<forall>j. 0 \<le> j \<and> j < totalSeats t \<longrightarrow> \<not> seatAvailability t ! nat j)"
      by blast
    then have "getAvailableSeatsCount t \<noteq> 0"
      using no_seat_available_iff [OF assms] by simp
    with a b c d eq show ?thesis by (simp add: f(5))
  qed
qed

theorem bookNextAvailableSeat_lowest_witness:
  "wf_train \<lparr>trainId = 7, trainName = ''T'', totalSeats = 3,
              seatAvailability = [False, True, True]\<rparr>
   \<and> bookNextAvailableSeat \<lparr>trainId = 7, trainName = ''T'', totalSeats = 3,
              seatAvailability = [False, True, True]\<rparr>
     = (Inr 2, \<lparr>trainId = 7, trainName = ''T'', totalSeats = 3,
              seatAvailability = [False, False, True]\<rparr>)
   \<and> isSeatAvailable \<lparr>trainId = 7, trainName = ''T'', totalSeats = 3,
              seatAvailability = [False, True, True]\<rparr> 2 = Inr True
   \<and> getAvailableSeatsCount \<lparr>trainId = 7, trainName = ''T'', totalSeats = 3,
              seatAvailability = [False, True, True]\<rparr> \<noteq> 0"
proof -
  let ?t = "\<lparr>trainId = 7, trainName = ''T'', totalSeats = 3,
              seatAvailability = [False, True, True]\<rparr>"
  have wf: "wf_train ?t" by (simp add: wf_train_def)
  have ev: "bookNextAvailableSeat ?t
      = (Inr 2, \<lparr>trainId = 7, trainName = ''T'', totalSeats = 3,
              seatAvailability = [False, False, True]\<rparr>)"
    by (simp add: bookNextAvailableSeat_def bookNext_loop.simps)
  from bookNextAvailableSeat_lowest [OF wf] wf ev show ?thesis
    by simp
qed

section \<open>Booking\<close>

text \<open>
  C2. From a system whose trains satisfy the class invariant, and with draws that hold
  an id absent from the ledger, \<open>bookTicket\<close> returns a string and throws nothing. The
  string is empty exactly on the failure paths: empty passenger name, train not found, no
  seat available, or a ticket the constructor rejects (which, after the earlier checks,
  is a train id that is not positive). When it is empty, the trains and the ledger are
  those before the call (the rollback has released the seat). When it is not empty,
  one seat \<open>n\<close> of the train found went from available to taken, every other seat of
  every train is as before, the id was absent from the ledger and the ledger is the old
  one with one ticket added under that id.
\<close>

theorem bookTicket_all_or_nothing:
  assumes wf: "\<forall>t\<in>set (trains s). wf_train t"
    and fuel: "\<exists>c\<in>set (candidates (gen s)). bookings s c = None"
  shows "\<exists>r s'. bookTicket tid p now s = Some (Inr r, s')
    \<and> (r = [] \<longleftrightarrow> p = [] \<or> tid \<le> 0
          \<or> (case findTrainRef (trains s) tid of
                Inl e \<Rightarrow> True
              | Inr k \<Rightarrow> getAvailableSeatsCount (trains s ! k) = 0))
    \<and> (if r = [] then trains s' = trains s \<and> bookings s' = bookings s
        else \<exists>k n. findTrainRef (trains s) tid = Inr k
             \<and> isSeatAvailable (trains s ! k) n = Inr True
             \<and> isSeatAvailable (trains s' ! k) n = Inr False
             \<and> trains s' = (trains s)[k := (trains s ! k)
                  \<lparr>seatAvailability := (seatAvailability (trains s ! k))[nat (n - 1) := False]\<rparr>]
             \<and> bookings s r = None
             \<and> bookings s' = (bookings s)(r \<mapsto>
                  \<lparr>bookingId = r, ticketTrainId = tid, seatNumber = n,
                   passengerName = p, bookingTime = now\<rparr>))"
proof (cases "p = []")
  case True
  then show ?thesis by (simp add: bookTicket_def)
next
  case pne: False
  show ?thesis
  proof (cases "findTrainRef (trains s) tid")
    case (Inl e)
    with pne show ?thesis by (simp add: bookTicket_def)
  next
    case (Inr k)
    from findTrainRef_Inr [OF Inr] have k: "k < length (trains s)"
      and tk: "trainId (trains s ! k) = tid" by simp_all
    let ?t = "trains s ! k"
    from k wf have wft: "wf_train ?t" by simp
    have same: "(trains s)[k := ?t] = trains s" by simp
    show ?thesis
    proof (cases "bookNextAvailableSeat ?t")
      case (Pair res t1)
      show ?thesis
      proof (cases res)
        case (Inl e)
        with Pair have eq: "bookNextAvailableSeat ?t = (Inl e, t1)" by simp
        from bookNext_Inl(2) [OF eq] have t1: "t1 = ?t" .
        from bookNext_Inl_count [OF wft eq] have "getAvailableSeatsCount ?t = 0" .
        with pne Inr eq t1 show ?thesis by (simp add: bookTicket_def)
      next
        case (Inr n)
        with Pair have eq: "bookNextAvailableSeat ?t = (Inr n, t1)" by simp
        note f = bookNext_Inr [OF eq]
        have cnt: "getAvailableSeatsCount ?t \<noteq> 0" by (rule bookNext_Inr_count [OF wft eq])
        have len: "nat (n - 1) < length (seatAvailability ?t)"
          using f(1,2) wft by (simp add: wf_train_def)
        from generateBookingId_returns [OF fuel] obtain bid g
          where gb: "generateBookingId (bookings s) (gen s) = Some (bid, g)" by blast
        from generateBookingId_Some [OF gb] have fresh: "bookings s bid = None"
          and bne: "bid \<noteq> []" by simp_all
        show ?thesis
        proof (cases "tid \<le> 0")
          case True
          then have tn: "\<exists>e. Ticket_new bid tid n p now = Inl e"
            using bne by (simp add: Ticket_new_def)
          then obtain e where tn: "Ticket_new bid tid n p now = Inl e" ..
          have "bookTicket tid p now s
              = Some (Inr [], \<lparr>trains = trains s, bookings = bookings s, gen = g\<rparr>)"
            using pne \<open>findTrainRef (trains s) tid = Inr k\<close> eq gb tn
              cancelSeat_undoes_bookNext [OF wft eq] same
            by (simp add: bookTicket_def)
          with True show ?thesis by simp
        next
          case False
          then have tn: "Ticket_new bid tid n p now
              = Inr \<lparr>bookingId = bid, ticketTrainId = tid, seatNumber = n,
                     passengerName = p, bookingTime = now\<rparr>"
            using bne pne f(1) by (simp add: Ticket_new_def)
          have bt: "bookTicket tid p now s
              = Some (Inr bid, \<lparr>trains = (trains s)[k := t1],
                   bookings = (bookings s)(bid \<mapsto> \<lparr>bookingId = bid, ticketTrainId = tid,
                     seatNumber = n, passengerName = p, bookingTime = now\<rparr>),
                   gen = g\<rparr>)"
            using pne \<open>findTrainRef (trains s) tid = Inr k\<close> eq gb tn fresh
            by (simp add: bookTicket_def emplace_def)
          have a: "isSeatAvailable ?t n = Inr True"
            using f(1,2,3) by (simp add: isSeatAvailable_def)
          have b: "isSeatAvailable t1 n = Inr False"
            using f(1,2) len by (simp add: isSeatAvailable_def f(5))
          let ?s' = "\<lparr>trains = (trains s)[k := t1],
                   bookings = (bookings s)(bid \<mapsto> \<lparr>bookingId = bid, ticketTrainId = tid,
                     seatNumber = n, passengerName = p, bookingTime = now\<rparr>),
                   gen = g\<rparr>"
          have post: "\<exists>k n. findTrainRef (trains s) tid = Inr k
             \<and> isSeatAvailable (trains s ! k) n = Inr True
             \<and> isSeatAvailable (trains ?s' ! k) n = Inr False
             \<and> trains ?s' = (trains s)[k := (trains s ! k)
                  \<lparr>seatAvailability := (seatAvailability (trains s ! k))[nat (n - 1) := False]\<rparr>]
             \<and> bookings s bid = None
             \<and> bookings ?s' = (bookings s)(bid \<mapsto>
                  \<lparr>bookingId = bid, ticketTrainId = tid, seatNumber = n,
                   passengerName = p, bookingTime = now\<rparr>)"
            using a b k fresh \<open>findTrainRef (trains s) tid = Inr k\<close>
            by (intro exI [of _ k] exI [of _ n]) (simp add: f(5))
          show ?thesis
            using bt bne pne False cnt post \<open>findTrainRef (trains s) tid = Inr k\<close>
            by simp
        qed
      qed
    qed
  qed
qed

theorem bookTicket_all_or_nothing_witness:
  "\<exists>r s'. bookTicket 1001 ''Asha'' ''10/30/2026 09:00:00''
        \<lparr>trains = [\<lparr>trainId = 1001, trainName = ''Express Delhi'', totalSeats = 2,
                      seatAvailability = [False, True]\<rparr>],
         bookings = Map.empty, gen = [0, 1, 2, 3, 4, 5, 6, 7]\<rparr> = Some (Inr r, s')
     \<and> r \<noteq> []
     \<and> trains s' = [\<lparr>trainId = 1001, trainName = ''Express Delhi'', totalSeats = 2,
                      seatAvailability = [False, False]\<rparr>]
     \<and> bookings s' r \<noteq> None"
proof -
  let ?s = "\<lparr>trains = [\<lparr>trainId = 1001, trainName = ''Express Delhi'', totalSeats = 2,
                      seatAvailability = [False, True]\<rparr>],
         bookings = Map.empty, gen = [0, 1, 2, 3, 4, 5, 6, 7]\<rparr>"
  have wf: "\<forall>t\<in>set (trains ?s). wf_train t" by (simp add: wf_train_def)
  have fuel: "\<exists>c\<in>set (candidates (gen ?s)). bookings ?s c = None"
    by (simp add: candidates.simps)
  have ev: "bookTicket 1001 ''Asha'' ''10/30/2026 09:00:00'' ?s
      = Some (Inr ''BKABCDEFGH'',
          \<lparr>trains = [\<lparr>trainId = 1001, trainName = ''Express Delhi'', totalSeats = 2,
                      seatAvailability = [False, False]\<rparr>],
           bookings = [''BKABCDEFGH'' \<mapsto> \<lparr>bookingId = ''BKABCDEFGH'', ticketTrainId = 1001,
                      seatNumber = 2, passengerName = ''Asha'',
                      bookingTime = ''10/30/2026 09:00:00''\<rparr>],
           gen = []\<rparr>)"
    by (simp add: bookTicket_def bookNextAvailableSeat_def bookNext_loop.simps
        generateBookingId.simps candidateId_def chars_def Ticket_new_def emplace_def)
  from bookTicket_all_or_nothing [OF wf fuel, of 1001 "''Asha''" "''10/30/2026 09:00:00''"] ev
  show ?thesis by simp
qed

text \<open>
  C3. In a system whose trains satisfy the class invariant, for a train present in the
  registry with at least one available seat and a non-empty passenger name: after a
  successful \<open>bookTicket\<close> returning \<open>bid\<close> (which took one seat of the train),
  \<open>cancelTicket bid\<close> returns true, the train's available count is again what it was
  before the booking (the whole registry and the ledger are), and the ticket is gone:
  the lookup of \<open>bid\<close> throws TicketNotFound and \<open>checkTicketStatus\<close> is false.
\<close>

theorem book_then_cancel_roundtrip:
  assumes wf: "\<forall>t\<in>set (trains s). wf_train t"
    and found: "findTrainRef (trains s) tid = Inr k"
    and avail: "0 < getAvailableSeatsCount (trains s ! k)"
    and pne: "p \<noteq> []"
    and book: "bookTicket tid p now s = Some (Inr bid, s1)"
    and ok: "bid \<noteq> []"
  shows "\<exists>s2. cancelTicket bid s1 = (True, s2)
      \<and> findTrainRef (trains s2) tid = Inr k
      \<and> getAvailableSeatsCount (trains s2 ! k) = getAvailableSeatsCount (trains s ! k)
      \<and> getAvailableSeatsCount (trains s1 ! k) = getAvailableSeatsCount (trains s ! k) - 1
      \<and> trains s2 = trains s \<and> bookings s2 = bookings s
      \<and> bookings s2 bid = None
      \<and> findTicket (bookings s2) bid = Inl (TicketNotFoundException bid)
      \<and> \<not> checkTicketStatus bid s2"
proof -
  from bookTicket_cases [OF wf book] ok found obtain n t1
    where eq: "bookNextAvailableSeat (trains s ! k) = (Inr n, t1)"
      and fresh: "bookings s bid = None"
      and tr1: "trains s1 = (trains s)[k := t1]"
      and bk1: "bookings s1 = (bookings s)(bid \<mapsto>
                  \<lparr>bookingId = bid, ticketTrainId = tid, seatNumber = n,
                   passengerName = p, bookingTime = now\<rparr>)"
    by auto
  from findTrainRef_Inr [OF found] have k: "k < length (trains s)" by simp
  let ?t = "trains s ! k"
  from k wf have wft: "wf_train ?t" by simp
  note f = bookNext_Inr [OF eq]
  have tid1: "trainId t1 = trainId ?t" by (simp add: f(5))
  have found1: "findTrainRef (trains s1) tid = Inr k"
    using findTrainRef_update [OF k tid1] found tr1 by simp
  have nth1: "trains s1 ! k = t1" using k tr1 by simp
  have undo: "cancelSeat t1 n = (Inr True, ?t)" by (rule cancelSeat_undoes_bookNext [OF wft eq])
  have restore: "(trains s1)[k := ?t] = trains s" using tr1 by simp
  have unmap: "(bookings s1)(bid := None) = bookings s"
    using fresh bk1 by (simp add: fun_upd_idem)
  have ct: "cancelTicket bid s1 = (True, s1\<lparr>trains := trains s, bookings := bookings s\<rparr>)"
    using found1 nth1 undo restore unmap bk1
    by (simp add: cancelTicket_def findTicket_def)
  have len: "nat (n - 1) < length (seatAvailability ?t)"
    using f(1,2) wft by (simp add: wf_train_def)
  have cnt: "getAvailableSeatsCount t1 = getAvailableSeatsCount ?t - 1"
    using count_list_take_seat [OF len f(3)] by (simp add: getAvailableSeatsCount_def f(5))
  show ?thesis
    using ct found fresh cnt nth1
    by (simp add: findTicket_def checkTicketStatus_def)
qed

theorem book_then_cancel_roundtrip_witness:
  "bookTicket 1001 ''Asha'' ''10/30/2026 09:00:00''
        \<lparr>trains = [\<lparr>trainId = 1001, trainName = ''Express Delhi'', totalSeats = 2,
                      seatAvailability = [False, True]\<rparr>],
         bookings = Map.empty, gen = [0, 1, 2, 3, 4, 5, 6, 7]\<rparr>
     = Some (Inr ''BKABCDEFGH'',
          \<lparr>trains = [\<lparr>trainId = 1001, trainName = ''Express Delhi'', totalSeats = 2,
                      seatAvailability = [False, False]\<rparr>],
           bookings = [''BKABCDEFGH'' \<mapsto> \<lparr>bookingId = ''BKABCDEFGH'', ticketTrainId = 1001,
                      seatNumber = 2, passengerName = ''Asha'',
                      bookingTime = ''10/30/2026 09:00:00''\<rparr>],
           gen = []\<rparr>)
   \<and> (\<exists>s2. cancelTicket ''BKABCDEFGH''
          \<lparr>trains = [\<lparr>trainId = 1001, trainName = ''Express Delhi'', totalSeats = 2,
                      seatAvailability = [False, False]\<rparr>],
           bookings = [''BKABCDEFGH'' \<mapsto> \<lparr>bookingId = ''BKABCDEFGH'', ticketTrainId = 1001,
                      seatNumber = 2, passengerName = ''Asha'',
                      bookingTime = ''10/30/2026 09:00:00''\<rparr>],
           gen = []\<rparr> = (True, s2)
        \<and> trains s2 = [\<lparr>trainId = 1001, trainName = ''Express Delhi'', totalSeats = 2,
                      seatAvailability = [False, True]\<rparr>]
        \<and> getAvailableSeatsCount (trains s2 ! 0) = 1
        \<and> findTicket (bookings s2) ''BKABCDEFGH'' = Inl (TicketNotFoundException ''BKABCDEFGH''))"
proof -
  let ?s = "\<lparr>trains = [\<lparr>trainId = 1001, trainName = ''Express Delhi'', totalSeats = 2,
                      seatAvailability = [False, True]\<rparr>],
         bookings = Map.empty, gen = [0, 1, 2, 3, 4, 5, 6, 7]\<rparr>"
  have wf: "\<forall>t\<in>set (trains ?s). wf_train t" by (simp add: wf_train_def)
  have found: "findTrainRef (trains ?s) 1001 = Inr 0" by simp
  have avail: "0 < getAvailableSeatsCount (trains ?s ! 0)"
    by (simp add: getAvailableSeatsCount_def)
  have pne: "''Asha'' \<noteq> []" by simp
  have ok: "''BKABCDEFGH'' \<noteq> []" by simp
  have ev: "bookTicket 1001 ''Asha'' ''10/30/2026 09:00:00'' ?s
      = Some (Inr ''BKABCDEFGH'',
          \<lparr>trains = [\<lparr>trainId = 1001, trainName = ''Express Delhi'', totalSeats = 2,
                      seatAvailability = [False, False]\<rparr>],
           bookings = [''BKABCDEFGH'' \<mapsto> \<lparr>bookingId = ''BKABCDEFGH'', ticketTrainId = 1001,
                      seatNumber = 2, passengerName = ''Asha'',
                      bookingTime = ''10/30/2026 09:00:00''\<rparr>],
           gen = []\<rparr>)"
    by (simp add: bookTicket_def bookNextAvailableSeat_def bookNext_loop.simps
        generateBookingId.simps candidateId_def chars_def Ticket_new_def emplace_def)
  from book_then_cancel_roundtrip [OF wf found avail pne ev ok] obtain s2
    where "cancelTicket ''BKABCDEFGH''
          \<lparr>trains = [\<lparr>trainId = 1001, trainName = ''Express Delhi'', totalSeats = 2,
                      seatAvailability = [False, False]\<rparr>],
           bookings = [''BKABCDEFGH'' \<mapsto> \<lparr>bookingId = ''BKABCDEFGH'', ticketTrainId = 1001,
                      seatNumber = 2, passengerName = ''Asha'',
                      bookingTime = ''10/30/2026 09:00:00''\<rparr>],
           gen = []\<rparr> = (True, s2)"
      and "trains s2 = trains ?s"
      and "findTicket (bookings s2) ''BKABCDEFGH'' = Inl (TicketNotFoundException ''BKABCDEFGH'')"
    by auto
  with ev show ?thesis by (simp add: getAvailableSeatsCount_def)
qed

section \<open>The ledger and the registry\<close>

text \<open>
  C1. In every state the program reaches (after the start with any two files, and after
  any sequence of \<open>bookTicket\<close> and \<open>cancelTicket\<close> calls with any arguments), every
  ticket present in the ledger has its seat taken: the train of the ticket's train id is
  found in the registry, the seat number is in range there, and the seat is not
  available.
\<close>

theorem ticket_seat_unavailable:
  assumes "reachable s" and "bookings s bid = Some tk"
  shows "seatTaken (trains s) (ticketTrainId tk) (seatNumber tk)"
  using reachable_consistent [OF assms(1)] assms(2)
  unfolding ledger_consistent_def by blast

theorem ticket_seat_unavailable_witness:
  "\<exists>s. bookTicket 1001 ''Asha'' ''10/30/2026 09:00:00''
          (main_startup None None (\<lambda>i. ''10/30/2026 09:00:00'') [0, 1, 2, 3, 4, 5, 6, 7])
        = Some (Inr ''BKABCDEFGH'', s)
      \<and> reachable s
      \<and> bookings s ''BKABCDEFGH''
          = Some \<lparr>bookingId = ''BKABCDEFGH'', ticketTrainId = 1001, seatNumber = 1,
                  passengerName = ''Asha'', bookingTime = ''10/30/2026 09:00:00''\<rparr>
      \<and> seatTaken (trains s) 1001 1"
proof -
  let ?s0 = "main_startup None None (\<lambda>i. ''10/30/2026 09:00:00'') [0, 1, 2, 3, 4, 5, 6, 7]"
  let ?tk = "\<lparr>bookingId = ''BKABCDEFGH'', ticketTrainId = 1001, seatNumber = 1,
                  passengerName = ''Asha'', bookingTime = ''10/30/2026 09:00:00''\<rparr>"
  have s0: "?s0 = ReservationSystem_init [0, 1, 2, 3, 4, 5, 6, 7]"
    by (simp add: main_startup_def main_loadTrains_def main_loadTickets_def
        loadTrainsFromCSV_def loadTicketsFromCSV_def)
  have "\<exists>s. bookTicket 1001 ''Asha'' ''10/30/2026 09:00:00'' ?s0 = Some (Inr ''BKABCDEFGH'', s)
      \<and> bookings s ''BKABCDEFGH'' = Some ?tk"
    unfolding s0
    by (simp add: bookTicket_def init_trains init_bookings init_gen
        bookNextAvailableSeat_def bookNext_loop.simps
        generateBookingId.simps candidateId_def chars_def Ticket_new_def emplace_def)
  then obtain s where ev: "bookTicket 1001 ''Asha'' ''10/30/2026 09:00:00'' ?s0
        = Some (Inr ''BKABCDEFGH'', s)"
    and tk: "bookings s ''BKABCDEFGH'' = Some ?tk" by blast
  have r: "reachable s" by (rule reachable_book [OF reachable_start ev])
  from ticket_seat_unavailable [OF r tk] have "seatTaken (trains s) 1001 1" by simp
  with ev r tk show ?thesis by blast
qed

section \<open>Loading trains.csv\<close>

text \<open>
  C8. When trains.csv cannot be opened, \<open>loadTrainsFromCSV\<close> throws FileIO before it
  clears the registry and leaves the system as constructed; after the handler of
  \<open>main\<close> the registry holds exactly the four trains 1001, 1002, 1003 and 1004, each
  with 100 seats, all of them available.
\<close>

theorem missing_trains_file_keeps_defaults:
  "loadTrainsFromCSV ''trains.csv'' None (ReservationSystem_init g)
     = (Inl (FileIOException ''trains.csv'' ''open''), ReservationSystem_init g)
   \<and> trains (main_loadTrains None (ReservationSystem_init g)) =
     [\<lparr>trainId = 1001, trainName = ''Express Delhi'', totalSeats = 100,
        seatAvailability = replicate 100 True\<rparr>,
      \<lparr>trainId = 1002, trainName = ''Mumbai Local'', totalSeats = 100,
        seatAvailability = replicate 100 True\<rparr>,
      \<lparr>trainId = 1003, trainName = ''Chennai Mail'', totalSeats = 100,
        seatAvailability = replicate 100 True\<rparr>,
      \<lparr>trainId = 1004, trainName = ''Kolkata Express'', totalSeats = 100,
        seatAvailability = replicate 100 True\<rparr>]
   \<and> map trainId (trains (main_loadTrains None (ReservationSystem_init g)))
       = [1001, 1002, 1003, 1004]
   \<and> map totalSeats (trains (main_loadTrains None (ReservationSystem_init g)))
       = [100, 100, 100, 100]
   \<and> map getAvailableSeatsCount (trains (main_loadTrains None (ReservationSystem_init g)))
       = [100, 100, 100, 100]"
  by (simp add: loadTrainsFromCSV_def main_loadTrains_def init_trains
      getAvailableSeatsCount_def count_list_replicate)

text \<open>
  C6, evaluated on the row \<^verbatim>\<open>2001,Test,5,-3\<close>, whose count of booked seats
  (5 - (-3) = 8) exceeds the 5 seats: the row parses, the train is loaded with all five
  seats taken, and nothing is written to the error stream, for the row alone and for the
  file holding it. No line at all makes \<open>loadTrainLine\<close> write the warning about
  inconsistent seat data: the loop guard \<open>i < totalSeats\<close> ends the loop before
  \<open>bookNextAvailableSeat\<close> can throw.
\<close>

theorem inconsistent_row_no_warning:
  "parseTrainLine ''2001,Test,5,-3'' = Inr (2001, ''Test'', 5, - 3)
   \<and> loadTrainLine ''2001,Test,5,-3''
       = (Some \<lparr>trainId = 2001, trainName = ''Test'', totalSeats = 5,
                seatAvailability = [False, False, False, False, False]\<rparr>, [])
   \<and> fst (loadTrainsFromCSV ''trains.csv''
          (Some [''trainId,trainName,totalSeats,availableSeats'', ''2001,Test,5,-3''])
          (ReservationSystem_init g)) = Inr []
   \<and> trains (snd (loadTrainsFromCSV ''trains.csv''
          (Some [''trainId,trainName,totalSeats,availableSeats'', ''2001,Test,5,-3''])
          (ReservationSystem_init g)))
       = [\<lparr>trainId = 2001, trainName = ''Test'', totalSeats = 5,
                seatAvailability = [False, False, False, False, False]\<rparr>]
   \<and> (\<forall>line tid. WarnInconsistentSeatData tid \<notin> set (snd (loadTrainLine line)))"
proof -
  have p: "parseTrainLine ''2001,Test,5,-3'' = Inr (2001, ''Test'', 5, - 3)"
    by (simp add: parse_simps)
  have l: "loadTrainLine ''2001,Test,5,-3''
       = (Some \<lparr>trainId = 2001, trainName = ''Test'', totalSeats = 5,
                seatAvailability = [False, False, False, False, False]\<rparr>, [])"
    using loadTrainLine_result [OF p] by (simp add: wrap32_def eval_nat_numeral)
  show ?thesis
    using p l loadTrainLine_never_warns by (simp add: loadTrainsFromCSV_def)
qed

text \<open>
  C9, amended to the rows the \<open>Train\<close> constructor accepts. For a row that parses to
  (id, name, totalSeats, availableSeats) with a positive id, a non-empty name, a positive
  totalSeats and availableSeats greater than totalSeats: the
  difference is negative, the reconciliation loop returns the constructed train at its
  first test without any allocation and without output, so the row yields the train with
  all totalSeats seats available (its available count is totalSeats) and no message; the
  loop over the lines appends that train, and it is in the registry after the load of any
  file that holds the row after the header.
\<close>

theorem surplus_available_seats_row:
  assumes p: "parseTrainLine line = Inr (tid, name, nseats, avail)"
    and v: "0 < tid" "name \<noteq> []" "0 < nseats"
    and more: "nseats < avail"
  shows "loadTrainLine line
           = (Some \<lparr>trainId = tid, trainName = name, totalSeats = nseats,
                    seatAvailability = replicate (nat nseats) True\<rparr>, [])
       \<and> wrap32 (nseats - avail) < 0
       \<and> reconcile_loop \<lparr>trainId = tid, trainName = name, totalSeats = nseats,
                    seatAvailability = replicate (nat nseats) True\<rparr>
            0 (wrap32 (nseats - avail)) nseats
           = (\<lparr>trainId = tid, trainName = name, totalSeats = nseats,
                    seatAvailability = replicate (nat nseats) True\<rparr>, [])
       \<and> getAvailableSeatsCount \<lparr>trainId = tid, trainName = name, totalSeats = nseats,
                    seatAvailability = replicate (nat nseats) True\<rparr> = nseats
       \<and> loadTrainLines (line # rest) ts out
           = loadTrainLines rest
               (ts @ [\<lparr>trainId = tid, trainName = name, totalSeats = nseats,
                    seatAvailability = replicate (nat nseats) True\<rparr>]) out
       \<and> (\<forall>lines. line \<in> set (drop 1 lines) \<longrightarrow>
             \<lparr>trainId = tid, trainName = name, totalSeats = nseats,
                    seatAvailability = replicate (nat nseats) True\<rparr>
               \<in> set (trains (snd (loadTrainsFromCSV filename (Some lines) s))))"
proof -
  let ?t = "\<lparr>trainId = tid, trainName = name, totalSeats = nseats,
                    seatAvailability = replicate (nat nseats) True\<rparr>"
  from parseTrainLine_range [OF p] have rng: "- 2147483648 \<le> nseats" "nseats \<le> 2147483647"
    "- 2147483648 \<le> avail" "avail \<le> 2147483647" by simp_all
  have w: "wrap32 (nseats - avail) = nseats - avail"
    using rng v(3) more by (intro wrap32_id) simp_all
  with more have neg: "wrap32 (nseats - avail) < 0" by simp
  have loop: "reconcile_loop ?t 0 (wrap32 (nseats - avail)) nseats = (?t, [])"
    using neg by (subst reconcile_loop.simps) simp
  have tn: "Train_new tid name nseats = Inr ?t" using v by (simp add: Train_new_def)
  have l: "loadTrainLine line = (Some ?t, [])"
    by (simp add: loadTrainLine_def p tn loop)
  have cnt: "getAvailableSeatsCount ?t = nseats"
    using v(3) by (simp add: getAvailableSeatsCount_def count_list_replicate)
  have step: "loadTrainLines (line # rest) ts out = loadTrainLines rest (ts @ [?t]) out"
    by (simp add: l)
  have infile: "\<forall>lines. line \<in> set (drop 1 lines) \<longrightarrow>
      ?t \<in> set (trains (snd (loadTrainsFromCSV filename (Some lines) s)))"
  proof (intro allI impI)
    fix lines assume "line \<in> set (drop 1 lines)"
    with l have "?t \<in> set (fst (loadTrainLines (drop 1 lines) [] []))"
      unfolding loadTrainLines_set by force
    then show "?t \<in> set (trains (snd (loadTrainsFromCSV filename (Some lines) s)))"
      by (simp only: loadTrainsFromCSV_trains)
  qed
  from l neg loop cnt step infile show ?thesis by blast
qed

theorem surplus_available_seats_row_witness:
  "parseTrainLine ''2001,Test,5,9'' = Inr (2001, ''Test'', 5, 9)
   \<and> loadTrainLine ''2001,Test,5,9''
       = (Some \<lparr>trainId = 2001, trainName = ''Test'', totalSeats = 5,
                seatAvailability = [True, True, True, True, True]\<rparr>, [])
   \<and> trains (snd (loadTrainsFromCSV ''trains.csv''
          (Some [''trainId,trainName,totalSeats,availableSeats'', ''2001,Test,5,9''])
          (ReservationSystem_init [])))
       = [\<lparr>trainId = 2001, trainName = ''Test'', totalSeats = 5,
                seatAvailability = [True, True, True, True, True]\<rparr>]"
proof -
  have p: "parseTrainLine ''2001,Test,5,9'' = Inr (2001, ''Test'', 5, 9)"
    by (simp add: parse_simps)
  have v: "(0::int) < 2001" "''Test'' \<noteq> []" "(0::int) < 5" "(5::int) < 9" by simp_all
  from surplus_available_seats_row [OF p v, of "[]" "[]" "[]"]
  have l: "loadTrainLine ''2001,Test,5,9''
       = (Some \<lparr>trainId = 2001, trainName = ''Test'', totalSeats = 5,
                seatAvailability = replicate (nat 5) True\<rparr>, [])"
    by blast
  have r: "replicate (nat 5) True = [True, True, True, True, True]"
    by (simp add: eval_nat_numeral)
  from p l r show ?thesis by (simp add: loadTrainsFromCSV_def)
qed

text \<open>
  C9 as worded holds for no row the \<open>Train\<close> constructor rejects: the rows
  \<^verbatim>\<open>0,Test,5,9\<close>, \<^verbatim>\<open>2001,,5,9\<close> and \<^verbatim>\<open>2001,Test,0,5\<close> parse, declare more
  available seats than seats, and are skipped with an error; the file holding the first
  of them loads no train.
\<close>

theorem surplus_available_seats_row_counterexample:
  "parseTrainLine ''0,Test,5,9'' = Inr (0, ''Test'', 5, 9)
   \<and> loadTrainLine ''0,Test,5,9''
       = (None, [ErrorParsingLine (InvalidInputException ''Train ID must be positive'')
                   ''0,Test,5,9''])
   \<and> parseTrainLine ''2001,,5,9'' = Inr (2001, [], 5, 9)
   \<and> loadTrainLine ''2001,,5,9''
       = (None, [ErrorParsingLine (InvalidInputException ''Train name cannot be empty'')
                   ''2001,,5,9''])
   \<and> parseTrainLine ''2001,Test,0,5'' = Inr (2001, ''Test'', 0, 5)
   \<and> loadTrainLine ''2001,Test,0,5''
       = (None, [ErrorParsingLine (InvalidInputException ''Number of seats must be positive'')
                   ''2001,Test,0,5''])
   \<and> trains (snd (loadTrainsFromCSV ''trains.csv''
          (Some [''trainId,trainName,totalSeats,availableSeats'', ''0,Test,5,9''])
          (ReservationSystem_init []))) = []"
proof -
  have p1: "parseTrainLine ''0,Test,5,9'' = Inr (0, ''Test'', 5, 9)"
    by (simp add: parse_simps)
  have p2: "parseTrainLine ''2001,,5,9'' = Inr (2001, [], 5, 9)"
    by (simp add: parse_simps)
  have p3: "parseTrainLine ''2001,Test,0,5'' = Inr (2001, ''Test'', 0, 5)"
    by (simp add: parse_simps)
  show ?thesis
    by (simp add: p1 p2 p3 loadTrainLine_def Train_new_def loadTrainsFromCSV_def)
qed

section \<open>Loading tickets.csv\<close>

text \<open>
  C5, evaluated at the start of the program with no trains.csv and a tickets.csv holding
  the row \<^verbatim>\<open>BK1,1001,1,Bob,01/01/2020 00:00:00\<close>, read while the clock shows
  \<^verbatim>\<open>10/30/2026 09:00:00\<close>: the row parses with the booking time
  \<^verbatim>\<open>01/01/2020 00:00:00\<close>, and the ticket in the ledger carries the time of the load.
\<close>

theorem loaded_ticket_gets_load_time:
  "parseTicketLine ''BK1,1001,1,Bob,01/01/2020 00:00:00''
     = Inr (''BK1'', 1001, 1, ''Bob'', ''01/01/2020 00:00:00'')
   \<and> bookings (main_startup None
         (Some [''bookingId,trainId,seatNumber,passengerName,bookingTime'',
                ''BK1,1001,1,Bob,01/01/2020 00:00:00''])
         (\<lambda>i. ''10/30/2026 09:00:00'') g) ''BK1''
     = Some \<lparr>bookingId = ''BK1'', ticketTrainId = 1001, seatNumber = 1,
             passengerName = ''Bob'', bookingTime = ''10/30/2026 09:00:00''\<rparr>"
proof -
  have p: "parseTicketLine ''BK1,1001,1,Bob,01/01/2020 00:00:00''
     = Inr (''BK1'', 1001, 1, ''Bob'', ''01/01/2020 00:00:00'')"
    by (simp add: parse_simps)
  show ?thesis
    by (simp add: p main_startup_def main_loadTrains_def main_loadTickets_def
        loadTrainsFromCSV_def loadTicketsFromCSV_def loadTicketLine_def init_trains
        bookSpecificSeat_def Ticket_new_def emplace_def)
qed

text \<open>
  C7, evaluated on a tickets.csv with two rows under the booking id \<^verbatim>\<open>BK1\<close> (seats 1
  and 2 of train 1001), loaded into the constructed system: the load counts two loaded
  tickets and no error and writes no message, the ledger holds the ticket of the first row
  under \<^verbatim>\<open>BK1\<close>, and seat 2 is taken.
\<close>

theorem duplicate_id_insert_not_reported:
  "fst (loadTicketsFromCSV ''tickets.csv''
         (Some [''bookingId,trainId,seatNumber,passengerName,bookingTime'',
                ''BK1,1001,1,Bob,01/01/2020 00:00:00'',
                ''BK1,1001,2,Eve,01/02/2020 00:00:00''])
         (\<lambda>i. ''10/30/2026 09:00:00'') (ReservationSystem_init g)) = Inr (2, 0, [])
   \<and> bookings (snd (loadTicketsFromCSV ''tickets.csv''
         (Some [''bookingId,trainId,seatNumber,passengerName,bookingTime'',
                ''BK1,1001,1,Bob,01/01/2020 00:00:00'',
                ''BK1,1001,2,Eve,01/02/2020 00:00:00''])
         (\<lambda>i. ''10/30/2026 09:00:00'') (ReservationSystem_init g))) ''BK1''
     = Some \<lparr>bookingId = ''BK1'', ticketTrainId = 1001, seatNumber = 1,
             passengerName = ''Bob'', bookingTime = ''10/30/2026 09:00:00''\<rparr>
   \<and> seatTaken (trains (snd (loadTicketsFromCSV ''tickets.csv''
         (Some [''bookingId,trainId,seatNumber,passengerName,bookingTime'',
                ''BK1,1001,1,Bob,01/01/2020 00:00:00'',
                ''BK1,1001,2,Eve,01/02/2020 00:00:00''])
         (\<lambda>i. ''10/30/2026 09:00:00'') (ReservationSystem_init g)))) 1001 2"
proof -
  have p1: "parseTicketLine ''BK1,1001,1,Bob,01/01/2020 00:00:00''
     = Inr (''BK1'', 1001, 1, ''Bob'', ''01/01/2020 00:00:00'')"
    by (simp add: parse_simps)
  have p2: "parseTicketLine ''BK1,1001,2,Eve,01/02/2020 00:00:00''
     = Inr (''BK1'', 1001, 2, ''Eve'', ''01/02/2020 00:00:00'')"
    by (simp add: parse_simps)
  show ?thesis
    by (simp add: p1 p2 loadTicketsFromCSV_def loadTicketLine_def init_trains
        bookSpecificSeat_def Ticket_new_def emplace_def seatTaken_def isSeatAvailable_def)
qed



end
